theory Spec2Isabelle
  imports Main "HOL-Library.Sublist"
begin

section \<open>The model manager of caikit.core: data model\<close>

text \<open>
  The development embeds \<^verbatim>\<open>src/caikit/core/model_manager.py\<close>. The manager's own
  state (the singleton cache) and the code of its methods are modelled as they are
  written. Everything the methods call outside the file (the operating system, the zip
  library, the backend configuration, the registries, the loaders of the backends and of
  the module classes, the parser of \<^verbatim>\<open>config.yml\<close>) is a field of an environment
  record over an abstract world \<open>'w\<close>: a collaborator that only reads takes the world, one
  that may change it returns the new world. Every call of a collaborator that a claim
  speaks about is recorded, with its outcome, in a trace kept beside the manager's state.
\<close>

type_synonym args = "string list"

text \<open>
  What the model takes from outside the file:
  \<^item> \<^verbatim>\<open>error(log_code, exception)\<close> of the error handler raises the exception it is
    given, and \<^verbatim>\<open>error.type_check\<close> raises a \<^verbatim>\<open>TypeError\<close> when the value has none of
    the types (module \<^verbatim>\<open>toolkit/errors\<close> is not part of the sources at hand);
  \<^item> a loader and the parser of the module config may raise any exception; the checks of
    the file system, the listing of a directory, the creation and the removal of the
    temporary directory and \<^verbatim>\<open>configure\<close> raise nothing;
  \<^item> the arguments handed through to the loaders are a list of strings;
  \<^item> the model is sequential: one call runs from its start to its end. The lock is part
    of the trace only.
\<close>

text \<open>A configured load backend: its \<^verbatim>\<open>backend_type\<close>, and whether it is an instance
  of \<^verbatim>\<open>SharedLoadBackendBase\<close>.\<close>

record backend =
  backend_type :: string
  is_shared :: bool

text \<open>A loaded module (an instance of a subclass of \<^verbatim>\<open>ModuleBase\<close>).
  \<^verbatim>\<open>set_load_backend\<close> stores the backend in the instance. \<open>inst_truthy\<close> is the truth
  value of the instance where Python tests it in a condition: true for an ordinary object,
  false for an instance of a class whose \<^verbatim>\<open>__bool__\<close> or \<^verbatim>\<open>__len__\<close> makes it so.\<close>

record model_instance =
  inst_name :: string
  inst_truthy :: bool
  inst_load_backend :: "backend option"

text \<open>What a loader may return besides \<^verbatim>\<open>None\<close>: a module instance, or an object
  that is no \<^verbatim>\<open>ModuleBase\<close> (and has no \<^verbatim>\<open>set_load_backend\<close>).\<close>

datatype pyobj = Module model_instance | NonModule string

text \<open>The first argument of \<^verbatim>\<open>load\<close>.\<close>

datatype target = Str string | BytesIO "nat list" | Bytes "nat list" | Other_obj

text \<open>The \<^verbatim>\<open>load_singleton\<close> argument of \<^verbatim>\<open>load\<close>, before its type check.\<close>

datatype pyflag = PyBool bool | NonBool

text \<open>The exceptions of the file, one constructor for each place that raises, and the
  exceptions of the collaborators, split by whether \<^verbatim>\<open>except FileNotFoundError\<close>
  catches them.\<close>

datatype exn =
    TypeCheckFailed string
  | StatTypeError
  | PathNotFound string
  | NoConfigYml target
  | NestedDirs
  | NotInTopTwoLevels target
  | UnableToLoad string "string option"
  | NoSetLoadBackend string
  | Collab_FileNotFound string
  | Collab_Other string

fun is_FileNotFoundError :: "exn \<Rightarrow> bool" where
  "is_FileNotFoundError (PathNotFound p) = True"
| "is_FileNotFoundError (NoConfigYml p) = True"
| "is_FileNotFoundError NestedDirs = True"
| "is_FileNotFoundError (NotInTopTwoLevels t) = True"
| "is_FileNotFoundError (Collab_FileNotFound m) = True"
| "is_FileNotFoundError (TypeCheckFailed c) = False"
| "is_FileNotFoundError StatTypeError = False"
| "is_FileNotFoundError (UnableToLoad p m) = False"
| "is_FileNotFoundError (NoSetLoadBackend n) = False"
| "is_FileNotFoundError (Collab_Other m) = False"

text \<open>The class registered for a module id and a backend type
  (\<^verbatim>\<open>backend_impl_obj.impl_class\<close>). \<open>declared_load_backends\<close> is the class attribute
  named by \<^verbatim>\<open>SUPPORTED_LOAD_BACKENDS_VAR_NAME\<close>: \<open>None\<close> when the class has no such
  attribute.\<close>

record impl_class =
  impl_name :: string
  declared_load_backends :: "string list option"

text \<open>Modelled from the spec: the module descriptor parsed from \<^verbatim>\<open>config.yml\<close> by
  \<^verbatim>\<open>ModuleConfig.load\<close> (module \<^verbatim>\<open>modules/config.py\<close> is not part of the sources at
  hand). It has a \<^verbatim>\<open>module_id\<close>, a string, and may have a \<^verbatim>\<open>model_backend\<close> entry:
  \<open>config_model_backend\<close> is \<open>None\<close> when the config has no such entry, \<open>Some None\<close> when
  the entry is there and null, \<open>Some (Some b)\<close> when it names the backend type \<open>b\<close>.\<close>

record module_config =
  config_module_id :: string
  config_model_backend :: "string option option"

text \<open>Modelled from the spec: \<^verbatim>\<open>backend_types.LOCAL\<close>, the canonical local backend
  (module \<^verbatim>\<open>module_backends/backend_types.py\<close> is not part of the sources at hand).\<close>

definition LOCAL :: string where
  "LOCAL = ''LOCAL''"

type_synonym load_result = "exn + pyobj option"

text \<open>The calls recorded in the trace.\<close>

datatype event =
    Lock_acquire
  | Lock_release
  | Configure
  | Config_load string "exn + module_config"
  | Shared_load backend string args load_result
  | Impl_load impl_class backend string args load_result
  | Mkdtemp string
  | Cleanup string
  | Zip_extractall target string "exn option"

text \<open>The collaborators.\<close>

record 'w env =
  load_path :: "'w \<Rightarrow> string option"
  path_exists :: "'w \<Rightarrow> string \<Rightarrow> bool"
  path_join :: "string \<Rightarrow> string \<Rightarrow> string"
  normpath :: "string \<Rightarrow> string"
  abspath :: "string \<Rightarrow> string"
  is_zipfile :: "'w \<Rightarrow> target \<Rightarrow> bool"
  isdir :: "'w \<Rightarrow> string \<Rightarrow> bool"
  listdir :: "'w \<Rightarrow> string \<Rightarrow> string list"
  mkdtemp :: "'w \<Rightarrow> string \<times> 'w"
  rmtree :: "string \<Rightarrow> 'w \<Rightarrow> 'w"
  zip_extractall :: "target \<Rightarrow> string \<Rightarrow> 'w \<Rightarrow> exn option \<times> 'w"
  configured_load_backends :: "'w \<Rightarrow> backend list"
  configure :: "'w \<Rightarrow> 'w"
  shared_load :: "backend \<Rightarrow> string \<Rightarrow> args \<Rightarrow> 'w \<Rightarrow> load_result \<times> 'w"
  ModuleConfig_load :: "'w \<Rightarrow> string \<Rightarrow> exn + module_config"
  module_backend_registry :: "'w \<Rightarrow> string \<Rightarrow> (string \<Rightarrow> impl_class option) option"
  impl_load :: "impl_class \<Rightarrow> string \<Rightarrow> args \<Rightarrow> backend \<Rightarrow> 'w \<Rightarrow> load_result \<times> 'w"

text \<open>The state: the world, the manager's \<^verbatim>\<open>singleton_module_cache\<close>, the trace.\<close>

record 'w mstate =
  world :: 'w
  singleton_module_cache :: "string \<Rightarrow> model_instance option"
  trace :: "event list"

definition record_event :: "event \<Rightarrow> 'w mstate \<Rightarrow> 'w mstate" where
  "record_event e s = s\<lparr>trace := trace s @ [e]\<rparr>"

text \<open>The events of a run from \<open>s\<close> to \<open>s'\<close>.\<close>

definition new_events :: "'w mstate \<Rightarrow> 'w mstate \<Rightarrow> event list" where
  "new_events s s' = drop (length (trace s)) (trace s')"

section \<open>The methods\<close>

subsection \<open>\<^verbatim>\<open>singleton_lock\<close>\<close>

text \<open>The context manager takes \<^verbatim>\<open>_singleton_lock\<close> only for a singleton load, and
  releases it on every way out of the block.\<close>

definition singleton_lock_enter :: "bool \<Rightarrow> 'w mstate \<Rightarrow> 'w mstate" where
  "singleton_lock_enter load_singleton s =
     (if load_singleton then record_event Lock_acquire s else s)"

definition singleton_lock_exit :: "bool \<Rightarrow> 'w mstate \<Rightarrow> 'w mstate" where
  "singleton_lock_exit load_singleton s =
     (if load_singleton then record_event Lock_release s else s)"

subsection \<open>\<^verbatim>\<open>_get_supported_load_backends\<close>\<close>

definition get_supported_load_backends :: "impl_class \<Rightarrow> string list" where
  "get_supported_load_backends backend_impl =
     (case declared_load_backends backend_impl of None \<Rightarrow> [] | Some l \<Rightarrow> l)"

subsection \<open>\<^verbatim>\<open>_load_from_dir\<close>\<close>

text \<open>The three variables parsed lazily from the module config; \<open>None\<close> for the three
  of them stands for \<^verbatim>\<open>module_id is None\<close>. \<open>model_creation_backend\<close> is what
  \<^verbatim>\<open>module_config.get("model_backend", backend_types.LOCAL)\<close> gives: \<^verbatim>\<open>LOCAL\<close> for a
  config without the entry, the value of the entry otherwise, \<open>None\<close> for a null entry.\<close>

record descriptor =
  module_id :: string
  module_implementations :: "string \<Rightarrow> impl_class option"
  model_creation_backend :: "string option"

text \<open>Lines 218 to 233: parse the module config if this is the first time.\<close>

definition parse_module_config ::
  "'w env \<Rightarrow> string \<Rightarrow> descriptor option \<Rightarrow> 'w mstate \<Rightarrow> (exn + descriptor) \<times> 'w mstate" where
  "parse_module_config env module_path parsed s =
     (case parsed of
        Some d \<Rightarrow> (Inr d, s)
      | None \<Rightarrow>
          (case ModuleConfig_load env (world s) module_path of
             Inl e \<Rightarrow> (Inl e, record_event (Config_load module_path (Inl e)) s)
           | Inr module_config \<Rightarrow>
               (Inr \<lparr>module_id = config_module_id module_config,
                     module_implementations =
                       (case module_backend_registry env (world s) (config_module_id module_config) of
                          None \<Rightarrow> (\<lambda>t. None)
                        | Some impls \<Rightarrow> impls),
                     model_creation_backend =
                       (case config_model_backend module_config of
                          None \<Rightarrow> Some LOCAL
                        | Some b \<Rightarrow> b)\<rparr>,
                record_event (Config_load module_path (Inr module_config)) s)))"

text \<open>The body of the loop over the configured backends, for one backend. The list of
  supported load backends holds backend types, so \<^verbatim>\<open>model_creation_backend in
  supported_load_backends\<close> is false for the \<^verbatim>\<open>None\<close> of a null entry.\<close>

datatype outcome = Loaded model_instance | Skipped | Raised exn

definition try_backend ::
  "'w env \<Rightarrow> string \<Rightarrow> args \<Rightarrow> backend \<Rightarrow> descriptor option \<Rightarrow> 'w mstate
     \<Rightarrow> outcome \<times> descriptor option \<times> 'w mstate" where
  "try_backend env module_path args load_backend parsed s =
     (if is_shared load_backend then
        (case shared_load env load_backend module_path args (world s) of (res, w) \<Rightarrow>
           (let s1 = record_event (Shared_load load_backend module_path args res) (s\<lparr>world := w\<rparr>) in
            case res of
              Inl e \<Rightarrow> (Raised e, parsed, s1)
            | Inr None \<Rightarrow> (Skipped, parsed, s1)
            | Inr (Some (NonModule n)) \<Rightarrow> (Raised (TypeCheckFailed ''COR76726077E''), parsed, s1)
            | Inr (Some (Module model)) \<Rightarrow>
                (Loaded (model\<lparr>inst_load_backend := Some load_backend\<rparr>), parsed, s1)))
      else
        (case parse_module_config env module_path parsed s of
           (Inl e, s1) \<Rightarrow> (Raised e, parsed, s1)
         | (Inr d, s1) \<Rightarrow>
             (case module_implementations d (backend_type load_backend) of
                None \<Rightarrow> (Skipped, Some d, s1)
              | Some module_backend_impl \<Rightarrow>
                  if model_creation_backend d \<in> Some ` set (get_supported_load_backends module_backend_impl)
                  then
                    (case impl_load env module_backend_impl module_path args load_backend (world s1) of
                       (res, w) \<Rightarrow>
                         (let s2 = record_event
                                     (Impl_load module_backend_impl load_backend module_path args res)
                                     (s1\<lparr>world := w\<rparr>) in
                          case res of
                            Inl e \<Rightarrow> (Raised e, Some d, s2)
                          | Inr None \<Rightarrow> (Skipped, Some d, s2)
                          | Inr (Some (NonModule n)) \<Rightarrow> (Raised (NoSetLoadBackend n), Some d, s2)
                          | Inr (Some (Module loaded_model)) \<Rightarrow>
                              (Loaded (loaded_model\<lparr>inst_load_backend := Some load_backend\<rparr>),
                               Some d, s2)))
                  else (Skipped, Some d, s1))))"

text \<open>The loop: the backends in the order of the list, left at the first instance
  loaded (\<^verbatim>\<open>break\<close>) and at the first exception. \<open>Inr None\<close> is the end of the list with
  \<^verbatim>\<open>loaded_model\<close> still \<^verbatim>\<open>None\<close>.\<close>

fun try_backends ::
  "'w env \<Rightarrow> string \<Rightarrow> args \<Rightarrow> backend list \<Rightarrow> descriptor option \<Rightarrow> 'w mstate
     \<Rightarrow> (exn + model_instance option) \<times> descriptor option \<times> 'w mstate" where
  "try_backends env module_path args [] parsed s = (Inr None, parsed, s)"
| "try_backends env module_path args (load_backend # rest) parsed s =
     (case try_backend env module_path args load_backend parsed s of
        (Loaded m, parsed', s') \<Rightarrow> (Inr (Some m), parsed', s')
      | (Raised e, parsed', s') \<Rightarrow> (Inl e, parsed', s')
      | (Skipped, parsed', s') \<Rightarrow> try_backends env module_path args rest parsed' s')"


text \<open>Lines 161 to 171: the configured backends, configured first if there are none.\<close>

definition get_configured_backends :: "'w env \<Rightarrow> 'w mstate \<Rightarrow> backend list \<times> 'w mstate" where
  "get_configured_backends env s =
     (if configured_load_backends env (world s) = []
      then (let s1 = record_event Configure (s\<lparr>world := configure env (world s)\<rparr>)
            in (configured_load_backends env (world s1), s1))
      else (configured_load_backends env (world s), s))"

text \<open>Lines 155 to 157: \<^verbatim>\<open>load_singleton and self.singleton_module_cache.get(module_path)\<close>,
  tested for truth. \<open>Some\<close> is a cached instance that is true; \<open>None\<close> stands for every
  value that is false: no singleton load, no entry under the key, or an entry that is
  false in a condition.\<close>

definition singleton_entry :: "bool \<Rightarrow> 'w mstate \<Rightarrow> string \<Rightarrow> model_instance option" where
  "singleton_entry load_singleton s module_path =
     (if load_singleton
      then (case singleton_module_cache s module_path of
              None \<Rightarrow> None
            | Some m \<Rightarrow> if inst_truthy m then Some m else None)
      else None)"

text \<open>The method is reached with a string (from \<^verbatim>\<open>load\<close> and from
  \<^verbatim>\<open>_load_from_zipfile\<close>) or with a \<^verbatim>\<open>BytesIO\<close> buffer that is no archive (from
  \<^verbatim>\<open>load\<close>). \<^verbatim>\<open>os.path.exists\<close> of a buffer raises \<^verbatim>\<open>TypeError\<close>.\<close>

definition load_from_dir ::
  "'w env \<Rightarrow> target \<Rightarrow> bool \<Rightarrow> args \<Rightarrow> 'w mstate \<Rightarrow> (exn + model_instance) \<times> 'w mstate" where
  "load_from_dir env tgt load_singleton args s =
     (case tgt of
        Str module_path \<Rightarrow>
          if \<not> path_exists env (world s) module_path then (Inl (PathNotFound module_path), s)
          else
            (let s1 = singleton_lock_enter load_singleton s in
             case singleton_entry load_singleton s1 module_path of
               Some entry \<Rightarrow> (Inr entry, singleton_lock_exit load_singleton s1)
             | None \<Rightarrow>
                 (case get_configured_backends env s1 of (backends, s2) \<Rightarrow>
                    (case try_backends env module_path args backends None s2 of
                       (Inl e, parsed, s3) \<Rightarrow> (Inl e, singleton_lock_exit load_singleton s3)
                     | (Inr None, parsed, s3) \<Rightarrow>
                         (Inl (UnableToLoad module_path (map_option module_id parsed)),
                          singleton_lock_exit load_singleton s3)
                     | (Inr (Some loaded_model), parsed, s3) \<Rightarrow>
                         (Inr loaded_model,
                          singleton_lock_exit load_singleton
                            (if load_singleton
                             then s3\<lparr>singleton_module_cache :=
                                       (singleton_module_cache s3)(module_path \<mapsto> loaded_model)\<rparr>
                             else s3)))))
      | _ \<Rightarrow> (Inl StatTypeError, s))"

subsection \<open>\<^verbatim>\<open>_load_from_zipfile\<close>\<close>

definition startswith :: "string \<Rightarrow> string \<Rightarrow> bool" where
  "startswith s p = (take (length p) s = p)"

text \<open>Lines 327 to 331: the directories at the top of the extraction directory, but
  those whose name starts with two underscores.\<close>

definition nested_dirs :: "'w env \<Rightarrow> 'w \<Rightarrow> string \<Rightarrow> string list" where
  "nested_dirs env w extract_path =
     map (path_join env extract_path)
       (filter (\<lambda>f. isdir env w (path_join env extract_path f) \<and> \<not> startswith f ''__'')
          (listdir env w extract_path))"

text \<open>Lines 313 to 355, inside the temporary directory.\<close>

definition load_extracted ::
  "'w env \<Rightarrow> target \<Rightarrow> string \<Rightarrow> bool \<Rightarrow> args \<Rightarrow> 'w mstate \<Rightarrow> (exn + model_instance) \<times> 'w mstate" where
  "load_extracted env module_path extract_path load_singleton args s =
     (case load_from_dir env (Str extract_path) load_singleton args s of
        (Inr model, s1) \<Rightarrow> (Inr model, s1)
      | (Inl e, s1) \<Rightarrow>
          if \<not> is_FileNotFoundError e then (Inl e, s1)
          else
            (case nested_dirs env (world s1) extract_path of
               [d] \<Rightarrow>
                 (case load_from_dir env (Str d) load_singleton args s1 of
                    (Inr model, s2) \<Rightarrow> (Inr model, s2)
                  | (Inl e2, s2) \<Rightarrow>
                      if is_FileNotFoundError e2 then (Inl (NotInTopTwoLevels module_path), s2)
                      else (Inl e2, s2))
             | _ \<Rightarrow> (Inl NestedDirs, s1)))"

definition load_from_zipfile ::
  "'w env \<Rightarrow> target \<Rightarrow> bool \<Rightarrow> args \<Rightarrow> 'w mstate \<Rightarrow> (exn + model_instance) \<times> 'w mstate" where
  "load_from_zipfile env module_path load_singleton args s =
     (case mkdtemp env (world s) of (extract_path, w1) \<Rightarrow>
        (let s1 = record_event (Mkdtemp extract_path) (s\<lparr>world := w1\<rparr>) in
         case zip_extractall env module_path extract_path (world s1) of (err, w2) \<Rightarrow>
           (let s2 = record_event (Zip_extractall module_path extract_path err) (s1\<lparr>world := w2\<rparr>) in
            case (case err of
                    Some e \<Rightarrow> (Inl e, s2)
                  | None \<Rightarrow> load_extracted env module_path extract_path load_singleton args s2)
            of (r, s3) \<Rightarrow>
              (r, record_event (Cleanup extract_path) (s3\<lparr>world := rmtree env extract_path (world s3)\<rparr>)))))"

subsection \<open>\<^verbatim>\<open>load\<close>\<close>

text \<open>Lines 98 to 101: a string that names no existing path is taken below the
  configured \<^verbatim>\<open>load_path\<close>.\<close>

definition apply_load_path :: "'w env \<Rightarrow> 'w \<Rightarrow> target \<Rightarrow> target" where
  "apply_load_path env w module_path =
     (case (load_path env w, module_path) of
        (Some lp, Str p) \<Rightarrow> if \<not> path_exists env w p then Str (path_join env lp p) else Str p
      | _ \<Rightarrow> module_path)"

text \<open>Lines 105 to 110: a string is normalised with \<^verbatim>\<open>os.path.normpath\<close>, bytes are
  wrapped into a buffer.\<close>

definition normalize_target :: "'w env \<Rightarrow> target \<Rightarrow> target" where
  "normalize_target env module_path =
     (case module_path of
        Str p \<Rightarrow> Str (normpath env p)
      | Bytes b \<Rightarrow> BytesIO b
      | t \<Rightarrow> t)"

definition load ::
  "'w env \<Rightarrow> target \<Rightarrow> pyflag \<Rightarrow> args \<Rightarrow> 'w mstate \<Rightarrow> (exn + model_instance) \<times> 'w mstate" where
  "load env module_path load_singleton args s =
     (case load_singleton of
        NonBool \<Rightarrow> (Inl (TypeCheckFailed ''COR98255724E''), s)
      | PyBool sgl \<Rightarrow>
          (let module_path1 = apply_load_path env (world s) module_path in
           if module_path1 = Other_obj then (Inl (TypeCheckFailed ''COR98255419E''), s)
           else
             (let module_path2 = normalize_target env module_path1 in
              if is_zipfile env (world s) module_path2
              then load_from_zipfile env module_path2 sgl args s
              else
                (case load_from_dir env module_path2 sgl args s of
                   (Inl e, s') \<Rightarrow>
                     if is_FileNotFoundError e then (Inl (NoConfigYml module_path2), s')
                     else (Inl e, s')
                 | (Inr model, s') \<Rightarrow> (Inr model, s')))))"

subsection \<open>\<^verbatim>\<open>extract\<close>\<close>

text \<open>The method \<^verbatim>\<open>extract\<close>; \<open>extract\<close> being a keyword of Isabelle, the constant has
  the name the method has in the specification. \<^verbatim>\<open>os.path.abspath\<close> is taken with the
  working directory fixed.\<close>

definition extract_archive ::
  "'w env \<Rightarrow> string \<Rightarrow> string \<Rightarrow> bool \<Rightarrow> 'w mstate \<Rightarrow> (exn + string) \<times> 'w mstate" where
  "extract_archive env zip_path model_path0 force_overwrite s =
     (let model_path = abspath env model_path0 in
      if \<not> force_overwrite \<and> path_exists env (world s) model_path then (Inr model_path, s)
      else
        (case zip_extractall env (Str zip_path) model_path (world s) of
           (Some e, w) \<Rightarrow>
             (Inl e, record_event (Zip_extractall (Str zip_path) model_path (Some e)) (s\<lparr>world := w\<rparr>))
         | (None, w) \<Rightarrow>
             (Inr model_path,
              record_event (Zip_extractall (Str zip_path) model_path None) (s\<lparr>world := w\<rparr>))))"

subsection \<open>\<^verbatim>\<open>clear_singleton_cache\<close>\<close>

definition clear_singleton_cache :: "'w mstate \<Rightarrow> 'w mstate" where
  "clear_singleton_cache s =
     record_event Lock_release
       ((record_event Lock_acquire s)\<lparr>singleton_module_cache := (\<lambda>k. None)\<rparr>)"

section \<open>Projections of the trace\<close>

text \<open>The loader calls of a trace, shared or of a module class, each with the backend
  it was made for and what it returned.\<close>

fun loader_call :: "event \<Rightarrow> (backend \<times> load_result) list" where
  "loader_call (Shared_load b p a r) = [(b, r)]"
| "loader_call (Impl_load i b p a r) = [(b, r)]"
| "loader_call e = []"

definition loader_calls :: "event list \<Rightarrow> (backend \<times> load_result) list" where
  "loader_calls evs = concat (map loader_call evs)"

text \<open>The calls of the loaders of module classes, each with the class and the backend.\<close>

fun impl_call :: "event \<Rightarrow> (impl_class \<times> backend) list" where
  "impl_call (Impl_load i b p a r) = [(i, b)]"
| "impl_call e = []"

definition impl_calls :: "event list \<Rightarrow> (impl_class \<times> backend) list" where
  "impl_calls evs = concat (map impl_call evs)"

text \<open>The calls of \<^verbatim>\<open>ModuleConfig.load\<close>.\<close>

fun is_Config_load :: "event \<Rightarrow> bool" where
  "is_Config_load (Config_load p r) = True"
| "is_Config_load e = False"

definition config_loads :: "event list \<Rightarrow> event list" where
  "config_loads evs = filter is_Config_load evs"

text \<open>The takings and releases of the lock.\<close>

fun is_lock_event :: "event \<Rightarrow> bool" where
  "is_lock_event Lock_acquire = True"
| "is_lock_event Lock_release = True"
| "is_lock_event e = False"

definition lock_events :: "event list \<Rightarrow> event list" where
  "lock_events evs = filter is_lock_event evs"

text \<open>The directory a call of the parser or of a loader was given.\<close>

fun probed_path :: "event \<Rightarrow> string list" where
  "probed_path (Config_load p r) = [p]"
| "probed_path (Shared_load b p a r) = [p]"
| "probed_path (Impl_load i b p a r) = [p]"
| "probed_path e = []"

definition probed_paths :: "event list \<Rightarrow> string list" where
  "probed_paths evs = concat (map probed_path evs)"

text \<open>What a run from \<open>s\<close> to \<open>s'\<close> with result \<open>r\<close> may do to the singleton cache:
  nothing when it fails; and when the cache is changed, the run returns an instance, the
  change is the entry of that instance under one key, and the instance was returned by a
  loader call of the run.\<close>

definition cache_effect :: "'w mstate \<Rightarrow> 'w mstate \<Rightarrow> exn + model_instance \<Rightarrow> bool" where
  "cache_effect s s' r \<longleftrightarrow>
     (\<exists>evs. trace s' = trace s @ evs
        \<and> (\<forall>e. r = Inl e \<longrightarrow> singleton_module_cache s' = singleton_module_cache s)
        \<and> (singleton_module_cache s' \<noteq> singleton_module_cache s \<longrightarrow>
             (\<exists>m k b m0. r = Inr m
                \<and> singleton_module_cache s' = (singleton_module_cache s)(k \<mapsto> m)
                \<and> (b, Inr (Some (Module m0))) \<in> set (loader_calls evs)
                \<and> m = m0\<lparr>inst_load_backend := Some b\<rparr>)))"

section \<open>A concrete environment\<close>

text \<open>The path functions of a POSIX system, after \<^verbatim>\<open>posixpath.py\<close> of the Python
  standard library: \<^verbatim>\<open>str.split\<close>, \<^verbatim>\<open>str.join\<close>, the loop of \<^verbatim>\<open>normpath\<close> over the
  components, \<^verbatim>\<open>normpath\<close> and \<^verbatim>\<open>join\<close> of two paths.\<close>

fun split_sep :: "char \<Rightarrow> string \<Rightarrow> string list" where
  "split_sep c [] = [[]]"
| "split_sep c (x # xs) =
     (if x = c then [] # split_sep c xs
      else (case split_sep c xs of
              y # ys \<Rightarrow> (x # y) # ys
            | [] \<Rightarrow> [[x]]))"

fun join_sep :: "string \<Rightarrow> string list \<Rightarrow> string" where
  "join_sep sep [] = []"
| "join_sep sep [x] = x"
| "join_sep sep (x # y # ys) = x @ sep @ join_sep sep (y # ys)"

fun normpath_comps :: "bool \<Rightarrow> string list \<Rightarrow> string list \<Rightarrow> string list" where
  "normpath_comps initial_slashes [] new_comps = new_comps"
| "normpath_comps initial_slashes (c # comps) new_comps =
     (if c = [] \<or> c = ''.'' then normpath_comps initial_slashes comps new_comps
      else if c \<noteq> ''..'' \<or> (\<not> initial_slashes \<and> new_comps = [])
                \<or> (new_comps \<noteq> [] \<and> last new_comps = ''..'')
      then normpath_comps initial_slashes comps (new_comps @ [c])
      else if new_comps \<noteq> [] then normpath_comps initial_slashes comps (butlast new_comps)
      else normpath_comps initial_slashes comps new_comps)"

definition posix_normpath :: "string \<Rightarrow> string" where
  "posix_normpath path =
     (if path = [] then ''.''
      else
        (let initial_slashes =
               (if startswith path ''/''
                then (if startswith path ''//'' \<and> \<not> startswith path ''///'' then 2 else 1)
                else (0::nat));
             comps = normpath_comps (initial_slashes \<noteq> 0) (split_sep CHR ''/'' path) [];
             path1 = replicate initial_slashes CHR ''/'' @ join_sep ''/'' comps
         in if path1 = [] then ''.'' else path1))"

definition posix_join :: "string \<Rightarrow> string \<Rightarrow> string" where
  "posix_join a b =
     (if startswith b ''/'' then b
      else if a = [] \<or> last a = CHR ''/'' then a @ b
      else a @ ''/'' @ b)"

text \<open>A small world for the examples: the list of the directories that exist. The
  working directory is \<^verbatim>\<open>/work\<close>. The one archive, \<^verbatim>\<open>m.zip\<close>, unpacks to the
  directories \<^verbatim>\<open>__MACOSX\<close> and \<^verbatim>\<open>foo\<close>. A directory named \<^verbatim>\<open>foo\<close> holds a
  \<^verbatim>\<open>config.yml\<close> of the module \<^verbatim>\<open>foo-id\<close>, which records no \<^verbatim>\<open>model_backend\<close>.
  Three backends are configured: a shared one that declines every directory, then the
  local one, for which a class that declares \<^verbatim>\<open>LOCAL\<close> is registered, then a shared
  one that loads every directory.\<close>

definition demo_listdir :: "string list \<Rightarrow> string \<Rightarrow> string list" where
  "demo_listdir w p =
     concat (map (\<lambda>q. if startswith q (p @ ''/'') \<and> CHR ''/'' \<notin> set (drop (length p + 1) q)
                       then [drop (length p + 1) q] else []) w)"

definition local_backend :: backend where
  "local_backend = \<lparr>backend_type = ''LOCAL'', is_shared = False\<rparr>"

definition tgis_backend :: backend where
  "tgis_backend = \<lparr>backend_type = ''TGIS'', is_shared = True\<rparr>"

definition remote_backend :: backend where
  "remote_backend = \<lparr>backend_type = ''REMOTE'', is_shared = True\<rparr>"

definition local_impl :: impl_class where
  "local_impl = \<lparr>impl_name = ''Foo'', declared_load_backends = Some [''LOCAL'']\<rparr>"

definition foo_instance :: model_instance where
  "foo_instance = \<lparr>inst_name = ''Foo'', inst_truthy = True, inst_load_backend = None\<rparr>"

definition remote_instance :: model_instance where
  "remote_instance = \<lparr>inst_name = ''Remote'', inst_truthy = True, inst_load_backend = None\<rparr>"

definition demo_env :: "string list env" where
  "demo_env =
     \<lparr>load_path = (\<lambda>w. None),
      path_exists = (\<lambda>w p. p \<in> set w),
      path_join = posix_join,
      normpath = posix_normpath,
      abspath = (\<lambda>p. posix_normpath (posix_join ''/work'' p)),
      is_zipfile = (\<lambda>w t. t = Str ''m.zip''),
      isdir = (\<lambda>w p. p \<in> set w),
      listdir = demo_listdir,
      mkdtemp = (\<lambda>w. (''/tmp/t0'', ''/tmp/t0'' # w)),
      rmtree = (\<lambda>p w. filter (\<lambda>q. \<not> startswith q p) w),
      zip_extractall =
        (\<lambda>t dest w. (None, w @ [dest, posix_join dest ''__MACOSX'', posix_join dest ''foo''])),
      configured_load_backends = (\<lambda>w. [tgis_backend, local_backend, remote_backend]),
      configure = (\<lambda>w. w),
      shared_load =
        (\<lambda>b p a w. if backend_type b = ''REMOTE'' then (Inr (Some (Module remote_instance)), w)
                  else (Inr None, w)),
      ModuleConfig_load =
        (\<lambda>w p. if p \<in> set w \<and> (p = ''a/foo'' \<or> p = ''/tmp/t0/foo'')
               then Inr \<lparr>config_module_id = ''foo-id'', config_model_backend = None\<rparr>
               else Inl (Collab_FileNotFound ''config.yml'')),
      module_backend_registry =
        (\<lambda>w mid. if mid = ''foo-id''
                 then Some (\<lambda>t. if t = ''LOCAL'' then Some local_impl else None)
                 else None),
      impl_load = (\<lambda>impl p a b w. (Inr (Some (Module foo_instance)), w))\<rparr>"

text \<open>The same with the two shared backends only.\<close>

definition shared_env :: "string list env" where
  "shared_env = demo_env\<lparr>configured_load_backends := (\<lambda>w. [tgis_backend, remote_backend])\<rparr>"

text \<open>The same with an archive that unpacks to two directories, \<^verbatim>\<open>foo\<close> and
  \<^verbatim>\<open>bar\<close>.\<close>

definition two_dirs_env :: "string list env" where
  "two_dirs_env =
     demo_env\<lparr>zip_extractall :=
       (\<lambda>t dest w. (None, w @ [dest, posix_join dest ''foo'', posix_join dest ''bar'']))\<rparr>"

text \<open>The same with the local backend only, and with a registered class that declares
  the empty list.\<close>

definition empty_impl :: impl_class where
  "empty_impl = \<lparr>impl_name = ''Foo'', declared_load_backends = Some []\<rparr>"

definition empty_env :: "string list env" where
  "empty_env =
     demo_env\<lparr>configured_load_backends := (\<lambda>w. [local_backend]),
              module_backend_registry :=
                (\<lambda>w mid. if mid = ''foo-id''
                         then Some (\<lambda>t. if t = ''LOCAL'' then Some empty_impl else None)
                         else None)\<rparr>"

definition demo_state :: "string list mstate" where
  "demo_state =
     \<lparr>world = [''a'', ''a/foo'', ''a/bar''], singleton_module_cache = (\<lambda>k. None), trace = []\<rparr>"

section \<open>Basic facts about the trace\<close>

lemma record_event_simps [simp]:
  "trace (record_event e s) = trace s @ [e]"
  "world (record_event e s) = world s"
  "singleton_module_cache (record_event e s) = singleton_module_cache s"
  by (simp_all add: record_event_def)

lemma new_events_refl [simp]: "new_events s s = []"
  by (simp add: new_events_def)

lemma new_events_ext: "trace s' = trace s @ evs \<Longrightarrow> new_events s s' = evs"
  by (simp add: new_events_def)

section \<open>The archive extraction\<close>

text \<open>C9. After a call of \<^verbatim>\<open>extract\<close> that returned a destination which (now) exists,
  a second call without \<^verbatim>\<open>force_overwrite\<close> returns the same destination and leaves
  the state as it is: the archive is not opened, nothing is extracted. The destination
  is the absolute path of the argument. A second call with \<^verbatim>\<open>force_overwrite\<close> opens
  the archive and extracts it into that destination again, and returns the destination
  when the extraction raises nothing.\<close>

theorem extract_existing_destination:
  assumes "extract_archive env zip_path model_path force1 s = (Inr p1, s1)"
    and "path_exists env (world s1) p1"
  shows "p1 = abspath env model_path
     \<and> extract_archive env zip_path model_path False s1 = (Inr p1, s1)
     \<and> new_events s1 (snd (extract_archive env zip_path model_path True s1))
         = [Zip_extractall (Str zip_path) p1 (fst (zip_extractall env (Str zip_path) p1 (world s1)))]
     \<and> world (snd (extract_archive env zip_path model_path True s1))
         = snd (zip_extractall env (Str zip_path) p1 (world s1))
     \<and> fst (extract_archive env zip_path model_path True s1)
         = (case fst (zip_extractall env (Str zip_path) p1 (world s1)) of
              None \<Rightarrow> Inr p1 | Some e \<Rightarrow> Inl e)"
proof -
  from assms(1) have p1: "p1 = abspath env model_path"
    by (auto simp: extract_archive_def Let_def split: if_splits prod.splits option.splits)
  have second: "extract_archive env zip_path model_path False s1 = (Inr p1, s1)"
    using assms(2) p1 by (simp add: extract_archive_def Let_def)
  obtain err w where z: "zip_extractall env (Str zip_path) p1 (world s1) = (err, w)"
    by (cases "zip_extractall env (Str zip_path) p1 (world s1)")
  have forced: "extract_archive env zip_path model_path True s1 =
      ((case err of None \<Rightarrow> Inr p1 | Some e \<Rightarrow> Inl e),
       record_event (Zip_extractall (Str zip_path) p1 err) (s1\<lparr>world := w\<rparr>))"
    using z p1 by (simp add: extract_archive_def Let_def split: option.splits)
  show ?thesis
    using p1 second z by (simp add: forced new_events_def)
qed

theorem extract_existing_destination_witness:
  "extract_archive demo_env ''m.zip'' ''out'' False demo_state =
     (Inr ''/work/out'',
      \<lparr>world = [''a'', ''a/foo'', ''a/bar'', ''/work/out'', ''/work/out/__MACOSX'', ''/work/out/foo''],
       singleton_module_cache = (\<lambda>k. None),
       trace = [Zip_extractall (Str ''m.zip'') ''/work/out'' None]\<rparr>)
   \<and> extract_archive demo_env ''m.zip'' ''out'' False
       \<lparr>world = [''a'', ''a/foo'', ''a/bar'', ''/work/out'', ''/work/out/__MACOSX'', ''/work/out/foo''],
        singleton_module_cache = (\<lambda>k. None),
        trace = [Zip_extractall (Str ''m.zip'') ''/work/out'' None]\<rparr>
     = (Inr ''/work/out'',
        \<lparr>world = [''a'', ''a/foo'', ''a/bar'', ''/work/out'', ''/work/out/__MACOSX'', ''/work/out/foo''],
         singleton_module_cache = (\<lambda>k. None),
         trace = [Zip_extractall (Str ''m.zip'') ''/work/out'' None]\<rparr>)"
proof -
  let ?s1 = "\<lparr>world = [''a'', ''a/foo'', ''a/bar'', ''/work/out'', ''/work/out/__MACOSX'', ''/work/out/foo''],
       singleton_module_cache = (\<lambda>k. None),
       trace = [Zip_extractall (Str ''m.zip'') ''/work/out'' None]\<rparr> :: string list mstate"
  have first: "extract_archive demo_env ''m.zip'' ''out'' False demo_state = (Inr ''/work/out'', ?s1)"
    by (simp add: extract_archive_def demo_env_def demo_state_def posix_normpath_def posix_join_def
        startswith_def record_event_def Let_def)
  have ex: "path_exists demo_env (world ?s1) ''/work/out''"
    by (simp add: demo_env_def)
  have second: "extract_archive demo_env ''m.zip'' ''out'' False ?s1 = (Inr ''/work/out'', ?s1)"
    using extract_existing_destination [OF first ex] by blast
  show ?thesis
    using first second by (rule conjI)
qed

section \<open>The dispatch loop\<close>

lemma loader_calls_simps [simp]:
  "loader_calls [] = []"
  "loader_calls (e # evs) = loader_call e @ loader_calls evs"
  "loader_calls (xs @ ys) = loader_calls xs @ loader_calls ys"
  by (simp_all add: loader_calls_def)

lemma impl_calls_simps [simp]:
  "impl_calls [] = []"
  "impl_calls (e # evs) = impl_call e @ impl_calls evs"
  "impl_calls (xs @ ys) = impl_calls xs @ impl_calls ys"
  by (simp_all add: impl_calls_def)

lemma config_loads_simps [simp]:
  "config_loads [] = []"
  "config_loads (e # evs) = (if is_Config_load e then e # config_loads evs else config_loads evs)"
  "config_loads (xs @ ys) = config_loads xs @ config_loads ys"
  by (simp_all add: config_loads_def)

lemma probed_paths_simps [simp]:
  "probed_paths [] = []"
  "probed_paths (e # evs) = probed_path e @ probed_paths evs"
  "probed_paths (xs @ ys) = probed_paths xs @ probed_paths ys"
  by (simp_all add: probed_paths_def)


lemma try_backend_cache:
  assumes "try_backend env p a b parsed s = (out, parsed', s')"
  shows "singleton_module_cache s' = singleton_module_cache s"
  using assms
  by (auto simp: try_backend_def parse_module_config_def Let_def
      split: if_splits prod.splits sum.splits option.splits pyobj.splits)

lemma try_backend_calls:
  assumes "try_backend env p a b parsed s = (out, parsed', s')"
  shows "\<exists>evs. trace s' = trace s @ evs \<and>
           (case out of
              Loaded m \<Rightarrow> (\<exists>m0. loader_calls evs = [(b, Inr (Some (Module m0)))]
                               \<and> m = m0\<lparr>inst_load_backend := Some b\<rparr>)
            | Skipped \<Rightarrow> loader_calls evs = [] \<or> loader_calls evs = [(b, Inr None)]
            | Raised e \<Rightarrow> loader_calls evs = [] \<or> (\<exists>r. loader_calls evs = [(b, r)]))"
  using assms
  by (auto simp: try_backend_def parse_module_config_def Let_def
      split: if_splits prod.splits sum.splits option.splits pyobj.splits)

lemma try_backends_cache:
  assumes "try_backends env p a bs parsed s = (r, parsed', s')"
  shows "singleton_module_cache s' = singleton_module_cache s"
  using assms
proof (induction bs arbitrary: parsed s)
  case Nil
  then show ?case by simp
next
  case (Cons b bs)
  obtain out parsed1 s1 where step: "try_backend env p a b parsed s = (out, parsed1, s1)"
    by (cases "try_backend env p a b parsed s")
  from try_backend_cache [OF step]
  have c1: "singleton_module_cache s1 = singleton_module_cache s" .
  show ?case
  proof (cases out)
    case (Loaded m)
    with Cons.prems step c1 show ?thesis by simp
  next
    case Skipped
    with Cons.prems step have "try_backends env p a bs parsed1 s1 = (r, parsed', s')" by simp
    from Cons.IH [OF this] c1 show ?thesis by simp
  next
    case (Raised e)
    with Cons.prems step c1 show ?thesis by simp
  qed
qed

text \<open>The loader calls of the loop: in the order of the list; a run that loads an
  instance ends with the call that returned it, every call before returned \<open>None\<close> and was
  made for a backend that stands earlier in the list.\<close>

lemma try_backends_calls:
  assumes "try_backends env p a bs parsed s = (r, parsed', s')"
  shows "\<exists>evs. trace s' = trace s @ evs
      \<and> subseq (map fst (loader_calls evs)) bs
      \<and> (\<forall>m. r = Inr (Some m) \<longrightarrow>
            (\<exists>pre b post calls m0.
                bs = pre @ b # post
              \<and> loader_calls evs = calls @ [(b, Inr (Some (Module m0)))]
              \<and> (\<forall>c\<in>set calls. snd c = Inr None)
              \<and> subseq (map fst calls) pre
              \<and> m = m0\<lparr>inst_load_backend := Some b\<rparr>))
      \<and> (r = Inr None \<longrightarrow> (\<forall>c\<in>set (loader_calls evs). snd c = Inr None))"
  using assms
proof (induction bs arbitrary: parsed s)
  case Nil
  then show ?case by auto
next
  case (Cons b bs)
  obtain out parsed1 s1 where step: "try_backend env p a b parsed s = (out, parsed1, s1)"
    by (cases "try_backend env p a b parsed s")
  from try_backend_calls [OF step] obtain evs1 where
    t1: "trace s1 = trace s @ evs1" and
    c1: "case out of
              Loaded m \<Rightarrow> (\<exists>m0. loader_calls evs1 = [(b, Inr (Some (Module m0)))]
                               \<and> m = m0\<lparr>inst_load_backend := Some b\<rparr>)
            | Skipped \<Rightarrow> loader_calls evs1 = [] \<or> loader_calls evs1 = [(b, Inr None)]
            | Raised e \<Rightarrow> loader_calls evs1 = [] \<or> (\<exists>r. loader_calls evs1 = [(b, r)])"
    by blast
  show ?case
  proof (cases out)
    case (Loaded m)
    with c1 obtain m0 where l: "loader_calls evs1 = [(b, Inr (Some (Module m0)))]"
      and m: "m = m0\<lparr>inst_load_backend := Some b\<rparr>" by auto
    from Loaded Cons.prems step have r: "r = Inr (Some m)" and s': "s' = s1" by simp_all
    have "b # bs = [] @ b # bs \<and> loader_calls evs1 = [] @ [(b, Inr (Some (Module m0)))]
        \<and> (\<forall>c\<in>set ([] :: (backend \<times> load_result) list). snd c = Inr None)
        \<and> subseq (map fst ([] :: (backend \<times> load_result) list)) []
        \<and> m = m0\<lparr>inst_load_backend := Some b\<rparr>"
      using l m by simp
    then have "\<exists>pre b' post calls m0.
                b # bs = pre @ b' # post
              \<and> loader_calls evs1 = calls @ [(b', Inr (Some (Module m0)))]
              \<and> (\<forall>c\<in>set calls. snd c = Inr None)
              \<and> subseq (map fst calls) pre
              \<and> m = m0\<lparr>inst_load_backend := Some b'\<rparr>"
      by blast
    with t1 l r s' show ?thesis
      by (intro exI [of _ evs1]) auto
  next
    case (Raised e)
    from Raised Cons.prems step have r: "r = Inl e" and s': "s' = s1" by simp_all
    from Raised c1 have "subseq (map fst (loader_calls evs1)) (b # bs)"
      by auto
    with t1 r s' show ?thesis
      by (intro exI [of _ evs1]) auto
  next
    case Skipped
    with Cons.prems step have rest: "try_backends env p a bs parsed1 s1 = (r, parsed', s')" by simp
    from Cons.IH [OF rest] obtain evs2 where
      t2: "trace s' = trace s1 @ evs2" and
      sub2: "subseq (map fst (loader_calls evs2)) bs" and
      ok2: "\<forall>m. r = Inr (Some m) \<longrightarrow>
            (\<exists>pre b post calls m0.
                bs = pre @ b # post
              \<and> loader_calls evs2 = calls @ [(b, Inr (Some (Module m0)))]
              \<and> (\<forall>c\<in>set calls. snd c = Inr None)
              \<and> subseq (map fst calls) pre
              \<and> m = m0\<lparr>inst_load_backend := Some b\<rparr>)" and
      none2: "r = Inr None \<longrightarrow> (\<forall>c\<in>set (loader_calls evs2). snd c = Inr None)"
      by blast
    from Skipped c1 have l1: "loader_calls evs1 = [] \<or> loader_calls evs1 = [(b, Inr None)]"
      by simp
    have tr: "trace s' = trace s @ (evs1 @ evs2)" using t1 t2 by simp
    have sub: "subseq (map fst (loader_calls (evs1 @ evs2))) (b # bs)"
      using l1 sub2 by auto
    have none: "r = Inr None \<longrightarrow> (\<forall>c\<in>set (loader_calls (evs1 @ evs2)). snd c = Inr None)"
      using l1 none2 by auto
    have ok: "\<forall>m. r = Inr (Some m) \<longrightarrow>
            (\<exists>pre b' post calls m0.
                b # bs = pre @ b' # post
              \<and> loader_calls (evs1 @ evs2) = calls @ [(b', Inr (Some (Module m0)))]
              \<and> (\<forall>c\<in>set calls. snd c = Inr None)
              \<and> subseq (map fst calls) pre
              \<and> m = m0\<lparr>inst_load_backend := Some b'\<rparr>)"
    proof (intro allI impI)
      fix m assume "r = Inr (Some m)"
      with ok2 obtain pre b' post calls m0 where
        bs: "bs = pre @ b' # post" and
        lc: "loader_calls evs2 = calls @ [(b', Inr (Some (Module m0)))]" and
        cn: "\<forall>c\<in>set calls. snd c = Inr None" and
        sb: "subseq (map fst calls) pre" and
        mm: "m = m0\<lparr>inst_load_backend := Some b'\<rparr>"
        by blast
      have "b # bs = (b # pre) @ b' # post" using bs by simp
      moreover have "loader_calls (evs1 @ evs2)
          = (loader_calls evs1 @ calls) @ [(b', Inr (Some (Module m0)))]"
        using lc by simp
      moreover have "\<forall>c\<in>set (loader_calls evs1 @ calls). snd c = Inr None"
        using l1 cn by auto
      moreover have "subseq (map fst (loader_calls evs1 @ calls)) (b # pre)"
        using l1 sb by auto
      ultimately show "\<exists>pre b' post calls m0.
                b # bs = pre @ b' # post
              \<and> loader_calls (evs1 @ evs2) = calls @ [(b', Inr (Some (Module m0)))]
              \<and> (\<forall>c\<in>set calls. snd c = Inr None)
              \<and> subseq (map fst calls) pre
              \<and> m = m0\<lparr>inst_load_backend := Some b'\<rparr>"
        using mm by blast
    qed
    from tr sub none ok show ?thesis by blast
  qed
qed

text \<open>Every loader call of the loop but the last one returned \<open>None\<close>, however the loop
  ends.\<close>

lemma try_backends_calls_butlast:
  assumes "try_backends env p a bs parsed s = (r, parsed', s')"
  shows "\<exists>evs. trace s' = trace s @ evs
      \<and> (\<forall>c\<in>set (butlast (loader_calls evs)). snd c = Inr None)"
  using assms
proof (induction bs arbitrary: parsed s)
  case Nil
  then show ?case by auto
next
  case (Cons b bs)
  obtain out parsed1 s1 where step: "try_backend env p a b parsed s = (out, parsed1, s1)"
    by (cases "try_backend env p a b parsed s")
  from try_backend_calls [OF step] obtain evs1 where
    t1: "trace s1 = trace s @ evs1" and
    c1: "case out of
              Loaded m \<Rightarrow> (\<exists>m0. loader_calls evs1 = [(b, Inr (Some (Module m0)))]
                               \<and> m = m0\<lparr>inst_load_backend := Some b\<rparr>)
            | Skipped \<Rightarrow> loader_calls evs1 = [] \<or> loader_calls evs1 = [(b, Inr None)]
            | Raised e \<Rightarrow> loader_calls evs1 = [] \<or> (\<exists>r. loader_calls evs1 = [(b, r)])"
    by blast
  show ?case
  proof (cases out)
    case (Loaded m)
    with Cons.prems step have "s' = s1" by simp
    moreover from Loaded c1 have "butlast (loader_calls evs1) = []" by auto
    ultimately show ?thesis using t1 by (intro exI [of _ evs1]) simp
  next
    case (Raised e)
    with Cons.prems step have "s' = s1" by simp
    moreover from Raised c1 have "butlast (loader_calls evs1) = []" by auto
    ultimately show ?thesis using t1 by (intro exI [of _ evs1]) simp
  next
    case Skipped
    with Cons.prems step have rest: "try_backends env p a bs parsed1 s1 = (r, parsed', s')" by simp
    from Cons.IH [OF rest] obtain evs2 where
      t2: "trace s' = trace s1 @ evs2" and
      b2: "\<forall>c\<in>set (butlast (loader_calls evs2)). snd c = Inr None"
      by blast
    from Skipped c1 have l1: "\<forall>c\<in>set (loader_calls evs1). snd c = Inr None"
      by auto
    have "trace s' = trace s @ (evs1 @ evs2)" using t1 t2 by simp
    moreover have "\<forall>c\<in>set (butlast (loader_calls (evs1 @ evs2))). snd c = Inr None"
      using l1 b2 by (auto simp: butlast_append dest: in_set_butlastD)
    ultimately show ?thesis by blast
  qed
qed

lemma get_configured_backends_state:
  assumes "get_configured_backends env s = (bs, s2)"
  shows "singleton_module_cache s2 = singleton_module_cache s
     \<and> bs = configured_load_backends env (world s2)
     \<and> (\<exists>evs. trace s2 = trace s @ evs \<and> loader_calls evs = [] \<and> impl_calls evs = []
            \<and> config_loads evs = [] \<and> probed_paths evs = [])"
  using assms by (auto simp: get_configured_backends_def Let_def split: if_splits)

lemma get_configured_backends_nonempty:
  assumes "configured_load_backends env (world s) \<noteq> []"
  shows "get_configured_backends env s = (configured_load_backends env (world s), s)"
  using assms by (simp add: get_configured_backends_def)

lemma singleton_lock_simps [simp]:
  "world (singleton_lock_enter b s) = world s"
  "singleton_module_cache (singleton_lock_enter b s) = singleton_module_cache s"
  "trace (singleton_lock_enter b s) = trace s @ (if b then [Lock_acquire] else [])"
  "world (singleton_lock_exit b s) = world s"
  "singleton_module_cache (singleton_lock_exit b s) = singleton_module_cache s"
  "trace (singleton_lock_exit b s) = trace s @ (if b then [Lock_release] else [])"
  by (simp_all add: singleton_lock_enter_def singleton_lock_exit_def)

text \<open>The three ways through \<^verbatim>\<open>_load_from_dir\<close>.\<close>

lemma load_from_dir_missing:
  assumes "\<not> path_exists env (world s) p"
  shows "load_from_dir env (Str p) sgl args s = (Inl (PathNotFound p), s)"
  using assms by (simp add: load_from_dir_def)

lemma load_from_dir_cached:
  assumes "path_exists env (world s) p"
    and "singleton_module_cache s p = Some m \<and> inst_truthy m"
  shows "load_from_dir env (Str p) True args s
           = (Inr m, singleton_lock_exit True (singleton_lock_enter True s))"
  using assms by (simp add: load_from_dir_def singleton_entry_def Let_def)

lemma load_from_dir_dispatch:
  assumes "path_exists env (world s) p"
    and "\<not> (sgl \<and> (\<exists>m. singleton_module_cache s p = Some m \<and> inst_truthy m))"
    and "get_configured_backends env (singleton_lock_enter sgl s) = (bs, s2)"
    and "try_backends env p args bs None s2 = (r3, parsed, s3)"
  shows "load_from_dir env (Str p) sgl args s =
           (case r3 of
              Inl e \<Rightarrow> (Inl e, singleton_lock_exit sgl s3)
            | Inr None \<Rightarrow>
                (Inl (UnableToLoad p (map_option module_id parsed)), singleton_lock_exit sgl s3)
            | Inr (Some m) \<Rightarrow>
                (Inr m,
                 singleton_lock_exit sgl
                   (if sgl then s3\<lparr>singleton_module_cache := (singleton_module_cache s3)(p \<mapsto> m)\<rparr>
                    else s3)))"
  using assms
  by (auto simp: load_from_dir_def singleton_entry_def Let_def
      split: sum.splits option.splits if_splits)

text \<open>The definitions that the examples unfold.\<close>

lemmas demo_defs =
  demo_env_def shared_env_def two_dirs_env_def empty_env_def empty_impl_def demo_state_def demo_listdir_def posix_normpath_def posix_join_def startswith_def
  tgis_backend_def local_backend_def remote_backend_def local_impl_def foo_instance_def
  remote_instance_def LOCAL_def

lemmas method_defs =
  load_def apply_load_path_def normalize_target_def load_from_zipfile_def load_extracted_def
  nested_dirs_def load_from_dir_def singleton_lock_enter_def singleton_lock_exit_def
  singleton_entry_def get_configured_backends_def try_backend_def parse_module_config_def
  get_supported_load_backends_def record_event_def new_events_def Let_def

section \<open>The order of the backends\<close>







section \<open>The singleton cache is written only on success\<close>

lemma cache_effect_same:
  assumes "trace s' = trace s @ evs" and "singleton_module_cache s' = singleton_module_cache s"
  shows "cache_effect s s' r"
  using assms by (auto simp: cache_effect_def)

lemma cache_effect_wrap:
  assumes "cache_effect s1 s2 r"
    and "trace s1 = trace s0 @ pre" and "singleton_module_cache s1 = singleton_module_cache s0"
    and "trace s3 = trace s2 @ post" and "singleton_module_cache s3 = singleton_module_cache s2"
  shows "cache_effect s0 s3 r"
proof -
  from assms(1) obtain evs where
    tr: "trace s2 = trace s1 @ evs" and
    fail: "\<forall>e. r = Inl e \<longrightarrow> singleton_module_cache s2 = singleton_module_cache s1" and
    chg: "singleton_module_cache s2 \<noteq> singleton_module_cache s1 \<longrightarrow>
             (\<exists>m k b m0. r = Inr m
                \<and> singleton_module_cache s2 = (singleton_module_cache s1)(k \<mapsto> m)
                \<and> (b, Inr (Some (Module m0))) \<in> set (loader_calls evs)
                \<and> m = m0\<lparr>inst_load_backend := Some b\<rparr>)"
    unfolding cache_effect_def by blast
  have tr3: "trace s3 = trace s0 @ (pre @ evs @ post)"
    using tr assms(2,4) by simp
  have fail3: "\<forall>e. r = Inl e \<longrightarrow> singleton_module_cache s3 = singleton_module_cache s0"
    using fail assms(3,5) by simp
  have chg3: "singleton_module_cache s3 \<noteq> singleton_module_cache s0 \<longrightarrow>
             (\<exists>m k b m0. r = Inr m
                \<and> singleton_module_cache s3 = (singleton_module_cache s0)(k \<mapsto> m)
                \<and> (b, Inr (Some (Module m0))) \<in> set (loader_calls (pre @ evs @ post))
                \<and> m = m0\<lparr>inst_load_backend := Some b\<rparr>)"
  proof
    assume "singleton_module_cache s3 \<noteq> singleton_module_cache s0"
    then have "singleton_module_cache s2 \<noteq> singleton_module_cache s1"
      using assms(3,5) by simp
    with chg obtain m k b m0 where "r = Inr m"
      "singleton_module_cache s2 = (singleton_module_cache s1)(k \<mapsto> m)"
      "(b, Inr (Some (Module m0))) \<in> set (loader_calls evs)"
      "m = m0\<lparr>inst_load_backend := Some b\<rparr>"
      by blast
    then have "r = Inr m
        \<and> singleton_module_cache s3 = (singleton_module_cache s0)(k \<mapsto> m)
        \<and> (b, Inr (Some (Module m0))) \<in> set (loader_calls (pre @ evs @ post))
        \<and> m = m0\<lparr>inst_load_backend := Some b\<rparr>"
      using assms(3,5) by simp
    then show "\<exists>m k b m0. r = Inr m
                \<and> singleton_module_cache s3 = (singleton_module_cache s0)(k \<mapsto> m)
                \<and> (b, Inr (Some (Module m0))) \<in> set (loader_calls (pre @ evs @ post))
                \<and> m = m0\<lparr>inst_load_backend := Some b\<rparr>"
      by blast
  qed
  from tr3 fail3 chg3 show ?thesis
    unfolding cache_effect_def by blast
qed

lemma cache_effect_after_failure:
  assumes "cache_effect s s1 (Inl e)" and "cache_effect s1 s2 r"
  shows "cache_effect s s2 r"
proof -
  from assms(1) obtain pre where "trace s1 = trace s @ pre"
    and "singleton_module_cache s1 = singleton_module_cache s"
    unfolding cache_effect_def by blast
  from cache_effect_wrap [OF assms(2) this, of s2 "[]"] show ?thesis by simp
qed

lemma cache_effect_error:
  assumes "cache_effect s s' (Inl e)"
  shows "cache_effect s s' (Inl e')"
  using assms unfolding cache_effect_def by blast

lemma load_from_dir_cache_effect:
  assumes run: "load_from_dir env tgt sgl args s = (r, s')"
  shows "cache_effect s s' r"
proof (cases tgt)
  case (Str p)
  show ?thesis
  proof (cases "path_exists env (world s) p")
    case False
    from load_from_dir_missing [OF False] run Str show ?thesis
      by (auto intro: cache_effect_same [of _ _ "[]"])
  next
    case True
    show ?thesis
    proof (cases "sgl \<and> (\<exists>m. singleton_module_cache s p = Some m \<and> inst_truthy m)")
      case hit: True
      then obtain m where "singleton_module_cache s p = Some m \<and> inst_truthy m" and sgl by auto
      from load_from_dir_cached [OF True this(1)] run \<open>sgl\<close> Str
      have "s' = singleton_lock_exit True (singleton_lock_enter True s)" by simp
      then show ?thesis
        by (intro cache_effect_same [of _ _ "[Lock_acquire, Lock_release]"]) simp_all
    next
      case miss: False
      let ?s1 = "singleton_lock_enter sgl s"
      obtain bs s2 where cfg: "get_configured_backends env ?s1 = (bs, s2)"
        by (cases "get_configured_backends env ?s1")
      obtain r3 parsed s3 where loop: "try_backends env p args bs None s2 = (r3, parsed, s3)"
        by (cases "try_backends env p args bs None s2")
      from get_configured_backends_state [OF cfg] obtain cevs where
        c2: "singleton_module_cache s2 = singleton_module_cache s" and
        t2: "trace s2 = trace s @ ((if sgl then [Lock_acquire] else []) @ cevs)"
        by auto
      from try_backends_calls [OF loop] obtain evs where
        t3: "trace s3 = trace s2 @ evs" and
        ok: "\<forall>m. r3 = Inr (Some m) \<longrightarrow>
            (\<exists>pre b post calls m0.
                bs = pre @ b # post
              \<and> loader_calls evs = calls @ [(b, Inr (Some (Module m0)))]
              \<and> (\<forall>c\<in>set calls. snd c = Inr None)
              \<and> subseq (map fst calls) pre
              \<and> m = m0\<lparr>inst_load_backend := Some b\<rparr>)"
        by blast
      note c3 = try_backends_cache [OF loop]
      note d = load_from_dir_dispatch [OF True miss cfg loop]
      have inner: "cache_effect s2
          (if sgl \<and> (\<exists>m. r3 = Inr (Some m))
           then s3\<lparr>singleton_module_cache := (singleton_module_cache s3)(p \<mapsto> (SOME m. r3 = Inr (Some m)))\<rparr>
           else s3) r"
      proof (cases "\<exists>m. r3 = Inr (Some m)")
        case False
        then have "\<forall>m. r \<noteq> Inr m"
          using d run Str by (auto split: sum.splits option.splits)
        with False t3 c3 show ?thesis
          by (auto simp: cache_effect_def)
      next
        case True
        then obtain m where m: "r3 = Inr (Some m)" by blast
        with ok obtain b m0 where
          "(b, Inr (Some (Module m0))) \<in> set (loader_calls evs)"
          "m = m0\<lparr>inst_load_backend := Some b\<rparr>"
          by fastforce
        moreover have "r = Inr m" using d run Str m by simp
        ultimately show ?thesis
          using m t3 c3 by (auto simp: cache_effect_def)
      qed
      have s': "s' = singleton_lock_exit sgl
          (if sgl \<and> (\<exists>m. r3 = Inr (Some m))
           then s3\<lparr>singleton_module_cache := (singleton_module_cache s3)(p \<mapsto> (SOME m. r3 = Inr (Some m)))\<rparr>
           else s3)"
        using d run Str by (auto split: sum.splits option.splits)
      show ?thesis
        by (rule cache_effect_wrap [OF inner t2 c2]) (simp_all add: s')
    qed
  qed
next
  case (BytesIO x)
  with run show ?thesis
    by (auto simp: load_from_dir_def intro: cache_effect_same [of _ _ "[]"])
next
  case (Bytes x)
  with run show ?thesis
    by (auto simp: load_from_dir_def intro: cache_effect_same [of _ _ "[]"])
next
  case Other_obj
  with run show ?thesis
    by (auto simp: load_from_dir_def intro: cache_effect_same [of _ _ "[]"])
qed

lemma load_extracted_cache_effect:
  assumes run: "load_extracted env module_path extract_path sgl args s = (r, s')"
  shows "cache_effect s s' r"
proof -
  obtain r1 s1 where first: "load_from_dir env (Str extract_path) sgl args s = (r1, s1)"
    by (cases "load_from_dir env (Str extract_path) sgl args s")
  note e1 = load_from_dir_cache_effect [OF first]
  show ?thesis
  proof (cases r1)
    case (Inr m)
    with run first e1 show ?thesis by (simp add: load_extracted_def)
  next
    case (Inl e)
    show ?thesis
    proof (cases "is_FileNotFoundError e")
      case False
      with Inl run first e1 show ?thesis by (simp add: load_extracted_def)
    next
      case True
      show ?thesis
      proof (cases "\<exists>d. nested_dirs env (world s1) extract_path = [d]")
        case False
        then have "r = Inl NestedDirs \<and> s' = s1"
          using run first Inl True
          by (auto simp: load_extracted_def split: list.splits)
        with e1 Inl show ?thesis by (auto intro: cache_effect_error)
      next
        case one: True
        then obtain d where d: "nested_dirs env (world s1) extract_path = [d]" by blast
        obtain r2 s2 where second: "load_from_dir env (Str d) sgl args s1 = (r2, s2)"
          by (cases "load_from_dir env (Str d) sgl args s1")
        note e2 = load_from_dir_cache_effect [OF second]
        have s': "s' = s2" and r: "r = (case r2 of Inr m \<Rightarrow> Inr m
            | Inl e2 \<Rightarrow> if is_FileNotFoundError e2 then Inl (NotInTopTwoLevels module_path) else Inl e2)"
          using run first Inl True d second
          by (auto simp: load_extracted_def split: sum.splits if_splits)
        have "cache_effect s1 s2 r"
        proof (cases r2)
          case (Inl e2)
          with e2 r show ?thesis by (auto intro: cache_effect_error)
        next
          case (Inr m)
          with e2 r show ?thesis by simp
        qed
        with e1 Inl s' show ?thesis by (auto intro: cache_effect_after_failure)
      qed
    qed
  qed
qed

lemma load_from_zipfile_cache_effect:
  assumes run: "load_from_zipfile env module_path sgl args s = (r, s')"
  shows "cache_effect s s' r"
proof -
  obtain extract_path w1 where mk: "mkdtemp env (world s) = (extract_path, w1)"
    by (cases "mkdtemp env (world s)")
  let ?s1 = "record_event (Mkdtemp extract_path) (s\<lparr>world := w1\<rparr>)"
  obtain err w2 where ex: "zip_extractall env module_path extract_path (world ?s1) = (err, w2)"
    by (cases "zip_extractall env module_path extract_path (world ?s1)")
  let ?s2 = "record_event (Zip_extractall module_path extract_path err) (?s1\<lparr>world := w2\<rparr>)"
  have t2: "trace ?s2 = trace s @ [Mkdtemp extract_path, Zip_extractall module_path extract_path err]"
    and c2: "singleton_module_cache ?s2 = singleton_module_cache s"
    by simp_all
  show ?thesis
  proof (cases err)
    case (Some e)
    with run mk ex have "r = Inl e"
      and "s' = record_event (Cleanup extract_path) (?s2\<lparr>world := rmtree env extract_path (world ?s2)\<rparr>)"
      by (simp_all add: load_from_zipfile_def Let_def)
    then show ?thesis
      by (intro cache_effect_same [of _ _ "[Mkdtemp extract_path,
            Zip_extractall module_path extract_path err, Cleanup extract_path]"]) simp_all
  next
    case None
    obtain r3 s3 where inner: "load_extracted env module_path extract_path sgl args ?s2 = (r3, s3)"
      by (cases "load_extracted env module_path extract_path sgl args ?s2")
    with None run mk ex have r: "r = r3"
      and s': "s' = record_event (Cleanup extract_path) (s3\<lparr>world := rmtree env extract_path (world s3)\<rparr>)"
      by (simp_all add: load_from_zipfile_def Let_def)
    from load_extracted_cache_effect [OF inner] r have "cache_effect ?s2 s3 r" by simp
    from cache_effect_wrap [OF this t2 c2, of s' "[Cleanup extract_path]"] s'
    show ?thesis by simp
  qed
qed

lemma load_cache_effect:
  assumes run: "load env tgt flag args s = (r, s')"
  shows "cache_effect s s' r"
proof (cases flag)
  case NonBool
  with run show ?thesis
    by (auto simp: load_def intro: cache_effect_same [of _ _ "[]"])
next
  case (PyBool sgl)
  let ?t1 = "apply_load_path env (world s) tgt"
  let ?t2 = "normalize_target env ?t1"
  show ?thesis
  proof (cases "?t1 = Other_obj")
    case True
    with run PyBool show ?thesis
      by (auto simp: load_def Let_def intro: cache_effect_same [of _ _ "[]"])
  next
    case False
    show ?thesis
    proof (cases "is_zipfile env (world s) ?t2")
      case True
      with run PyBool False have "load_from_zipfile env ?t2 sgl args s = (r, s')"
        by (simp add: load_def Let_def)
      then show ?thesis by (rule load_from_zipfile_cache_effect)
    next
      case nz: False
      obtain r1 s1 where dir: "load_from_dir env ?t2 sgl args s = (r1, s1)"
        by (cases "load_from_dir env ?t2 sgl args s")
      note e1 = load_from_dir_cache_effect [OF dir]
      from run PyBool False nz dir have s': "s' = s1"
        by (auto simp: load_def Let_def split: sum.splits target.splits if_splits)
      show ?thesis
      proof (cases r1)
        case (Inr m)
        with run PyBool False nz dir have "r = r1" by (simp add: load_def Let_def)
        with e1 s' show ?thesis by simp
      next
        case (Inl e)
        with run PyBool False nz dir obtain e' where "r = Inl e'"
          by (auto simp: load_def Let_def split: target.splits if_splits)
        with e1 Inl s' show ?thesis by (auto intro: cache_effect_error)
      qed
    qed
  qed
qed

text \<open>C10. A call of \<^verbatim>\<open>load\<close> that fails, whatever the exception, leaves the
  singleton cache as it was. When a call changes the cache, it returns an instance, the
  change is the entry of that instance under one key, and the instance is what a loader
  call of this run returned (a module instance, not \<^verbatim>\<open>None\<close>), with the backend stored
  in it.\<close>

theorem failed_load_keeps_cache:
  assumes "load env tgt flag args s = (r, s')"
  shows "(\<forall>e. r = Inl e \<longrightarrow> singleton_module_cache s' = singleton_module_cache s)
     \<and> (singleton_module_cache s' \<noteq> singleton_module_cache s \<longrightarrow>
          (\<exists>m k b m0. r = Inr m
             \<and> singleton_module_cache s' = (singleton_module_cache s)(k \<mapsto> m)
             \<and> (b, Inr (Some (Module m0))) \<in> set (loader_calls (new_events s s'))
             \<and> m = m0\<lparr>inst_load_backend := Some b\<rparr>))"
proof -
  from load_cache_effect [OF assms] obtain evs where
    tr: "trace s' = trace s @ evs" and
    fail: "\<forall>e. r = Inl e \<longrightarrow> singleton_module_cache s' = singleton_module_cache s" and
    chg: "singleton_module_cache s' \<noteq> singleton_module_cache s \<longrightarrow>
             (\<exists>m k b m0. r = Inr m
                \<and> singleton_module_cache s' = (singleton_module_cache s)(k \<mapsto> m)
                \<and> (b, Inr (Some (Module m0))) \<in> set (loader_calls evs)
                \<and> m = m0\<lparr>inst_load_backend := Some b\<rparr>)"
    unfolding cache_effect_def by blast
  from tr have "new_events s s' = evs" by (rule new_events_ext)
  with fail chg show ?thesis by simp
qed

theorem failed_load_keeps_cache_witness:
  "fst (load demo_env (Str ''a/bar'') (PyBool True) [] demo_state) = Inl (NoConfigYml (Str ''a/bar''))
   \<and> singleton_module_cache (snd (load demo_env (Str ''a/bar'') (PyBool True) [] demo_state))
       = singleton_module_cache demo_state
   \<and> singleton_module_cache (snd (load demo_env (Str ''a/foo'') (PyBool True) [] demo_state))
       \<noteq> singleton_module_cache demo_state
   \<and> (\<exists>m k b m0.
         fst (load demo_env (Str ''a/foo'') (PyBool True) [] demo_state) = Inr m
       \<and> singleton_module_cache (snd (load demo_env (Str ''a/foo'') (PyBool True) [] demo_state))
           = (singleton_module_cache demo_state)(k \<mapsto> m)
       \<and> (b, Inr (Some (Module m0)))
           \<in> set (loader_calls (new_events demo_state
                 (snd (load demo_env (Str ''a/foo'') (PyBool True) [] demo_state))))
       \<and> m = m0\<lparr>inst_load_backend := Some b\<rparr>)"
proof -
  obtain r1 s1 where run1: "load demo_env (Str ''a/bar'') (PyBool True) [] demo_state = (r1, s1)"
    by (cases "load demo_env (Str ''a/bar'') (PyBool True) [] demo_state")
  obtain r2 s2 where run2: "load demo_env (Str ''a/foo'') (PyBool True) [] demo_state = (r2, s2)"
    by (cases "load demo_env (Str ''a/foo'') (PyBool True) [] demo_state")
  have r1: "fst (load demo_env (Str ''a/bar'') (PyBool True) [] demo_state) = Inl (NoConfigYml (Str ''a/bar''))"
    by (simp add: method_defs demo_defs)
  with run1 have "r1 = Inl (NoConfigYml (Str ''a/bar''))" by simp
  with failed_load_keeps_cache [OF run1]
  have keep: "singleton_module_cache s1 = singleton_module_cache demo_state" by blast
  have "singleton_module_cache (snd (load demo_env (Str ''a/foo'') (PyBool True) [] demo_state)) ''a/foo''
      = Some (foo_instance\<lparr>inst_load_backend := Some local_backend\<rparr>)"
    by (simp add: method_defs demo_defs)
  with run2 have "singleton_module_cache s2 ''a/foo'' \<noteq> singleton_module_cache demo_state ''a/foo''"
    by (simp add: demo_state_def)
  then have chg: "singleton_module_cache s2 \<noteq> singleton_module_cache demo_state"
    by auto
  with failed_load_keeps_cache [OF run2]
  have ex: "\<exists>m k b m0. r2 = Inr m
       \<and> singleton_module_cache s2 = (singleton_module_cache demo_state)(k \<mapsto> m)
       \<and> (b, Inr (Some (Module m0))) \<in> set (loader_calls (new_events demo_state s2))
       \<and> m = m0\<lparr>inst_load_backend := Some b\<rparr>"
    by blast
  show ?thesis
    using r1 keep chg ex run1 run2 by simp
qed

section \<open>A path that does not exist\<close>

text \<open>The path that \<^verbatim>\<open>load\<close> hands on for a string, when no type check fails.\<close>

lemma load_dir_route:
  assumes "normalize_target env (apply_load_path env (world s) (Str p0)) = Str p"
    and "\<not> is_zipfile env (world s) (Str p)"
  shows "load env (Str p0) (PyBool sgl) args s =
           (case load_from_dir env (Str p) sgl args s of
              (Inl e, s') \<Rightarrow> if is_FileNotFoundError e then (Inl (NoConfigYml (Str p)), s') else (Inl e, s')
            | (Inr model, s') \<Rightarrow> (Inr model, s'))"
proof -
  have "apply_load_path env (world s) (Str p0) \<noteq> Other_obj"
    by (auto simp: apply_load_path_def split: option.splits)
  with assms show ?thesis
    by (simp add: load_def Let_def split: prod.splits sum.splits)
qed

text \<open>C8, the claim as it stands fails: \<^verbatim>\<open>load\<close> of a path that does not exist raises the
  same error as \<^verbatim>\<open>load\<close> of an existing directory that holds no \<^verbatim>\<open>config.yml\<close>.\<close>

theorem missing_path_error_not_distinct:
  "\<not> path_exists demo_env (world demo_state) ''a/none''
   \<and> \<not> is_zipfile demo_env (world demo_state) (Str ''a/none'')
   \<and> fst (load demo_env (Str ''a/none'') (PyBool False) [] demo_state) = Inl (NoConfigYml (Str ''a/none''))
   \<and> path_exists demo_env (world demo_state) ''a/bar''
   \<and> fst (load demo_env (Str ''a/bar'') (PyBool False) [] demo_state) = Inl (NoConfigYml (Str ''a/bar''))"
  by (simp add: method_defs demo_defs)

text \<open>C8, amended. For a string that \<^verbatim>\<open>load\<close> resolves to a path \<open>p\<close> that is no archive
  and does not exist, \<^verbatim>\<open>_load_from_dir\<close> raises its \<^verbatim>\<open>FileNotFoundError\<close> for \<open>p\<close> at
  once and leaves the state as it is: the lock is not taken, the cache is not read, no
  backend is tried. \<^verbatim>\<open>load\<close> turns it into the \<^verbatim>\<open>FileNotFoundError\<close> that says the
  path holds no \<^verbatim>\<open>config.yml\<close>; it is not the failure of the dispatch. That error is
  the one into which \<^verbatim>\<open>load\<close> turns every \<^verbatim>\<open>FileNotFoundError\<close> that
  \<^verbatim>\<open>_load_from_dir\<close> raises for a path that is no archive, whatever raised it: it is not
  an error of its own for a path that does not exist.\<close>

theorem missing_path_fails_before_dispatch:
  assumes "normalize_target env (apply_load_path env (world s) (Str p0)) = Str p"
    and "\<not> is_zipfile env (world s) (Str p)"
    and "\<not> path_exists env (world s) p"
  shows "load_from_dir env (Str p) sgl args s = (Inl (PathNotFound p), s)
     \<and> load env (Str p0) (PyBool sgl) args s = (Inl (NoConfigYml (Str p)), s)
     \<and> is_FileNotFoundError (NoConfigYml (Str p))
     \<and> (\<forall>m. NoConfigYml (Str p) \<noteq> UnableToLoad p m)
     \<and> (\<forall>p1 k1 sgl1 args1 s1 e s1'.
          normalize_target env (apply_load_path env (world s1) (Str p1)) = Str k1 \<longrightarrow>
          \<not> is_zipfile env (world s1) (Str k1) \<longrightarrow>
          load_from_dir env (Str k1) sgl1 args1 s1 = (Inl e, s1') \<longrightarrow>
          is_FileNotFoundError e \<longrightarrow>
            load env (Str p1) (PyBool sgl1) args1 s1 = (Inl (NoConfigYml (Str k1)), s1'))"
proof -
  have wrap: "\<forall>p1 k1 sgl1 args1 s1 e s1'.
          normalize_target env (apply_load_path env (world s1) (Str p1)) = Str k1 \<longrightarrow>
          \<not> is_zipfile env (world s1) (Str k1) \<longrightarrow>
          load_from_dir env (Str k1) sgl1 args1 s1 = (Inl e, s1') \<longrightarrow>
          is_FileNotFoundError e \<longrightarrow>
            load env (Str p1) (PyBool sgl1) args1 s1 = (Inl (NoConfigYml (Str k1)), s1')"
  proof (intro allI impI)
    fix p1 k1 sgl1 args1 s1 e s1'
    assume k: "normalize_target env (apply_load_path env (world s1) (Str p1)) = Str k1"
      and z: "\<not> is_zipfile env (world s1) (Str k1)"
      and r: "load_from_dir env (Str k1) sgl1 args1 s1 = (Inl e, s1')"
      and f: "is_FileNotFoundError e"
    from load_dir_route [OF k z, of sgl1 args1] r f
    show "load env (Str p1) (PyBool sgl1) args1 s1 = (Inl (NoConfigYml (Str k1)), s1')"
      by simp
  qed
  from load_dir_route [OF assms(1,2)] load_from_dir_missing [OF assms(3)]
  have "load_from_dir env (Str p) sgl args s = (Inl (PathNotFound p), s)
     \<and> load env (Str p0) (PyBool sgl) args s = (Inl (NoConfigYml (Str p)), s)
     \<and> is_FileNotFoundError (NoConfigYml (Str p))
     \<and> (\<forall>m. NoConfigYml (Str p) \<noteq> UnableToLoad p m)"
    by simp
  with wrap show ?thesis by (simp only: simp_thms)
qed

theorem missing_path_fails_before_dispatch_witness:
  "normalize_target demo_env (apply_load_path demo_env (world demo_state) (Str ''a/none/''))
     = Str ''a/none''
   \<and> \<not> is_zipfile demo_env (world demo_state) (Str ''a/none'')
   \<and> \<not> path_exists demo_env (world demo_state) ''a/none''
   \<and> load_from_dir demo_env (Str ''a/none'') True [] demo_state
       = (Inl (PathNotFound ''a/none''), demo_state)
   \<and> load demo_env (Str ''a/none/'') (PyBool True) [] demo_state
       = (Inl (NoConfigYml (Str ''a/none'')), demo_state)
   \<and> normalize_target demo_env (apply_load_path demo_env (world demo_state) (Str ''a/bar/''))
     = Str ''a/bar''
   \<and> \<not> is_zipfile demo_env (world demo_state) (Str ''a/bar'')
   \<and> path_exists demo_env (world demo_state) ''a/bar''
   \<and> load_from_dir demo_env (Str ''a/bar'') False [] demo_state
       = (Inl (Collab_FileNotFound ''config.yml''),
          snd (load_from_dir demo_env (Str ''a/bar'') False [] demo_state))
   \<and> is_FileNotFoundError (Collab_FileNotFound ''config.yml'')
   \<and> load demo_env (Str ''a/bar/'') (PyBool False) [] demo_state
       = (Inl (NoConfigYml (Str ''a/bar'')),
          snd (load_from_dir demo_env (Str ''a/bar'') False [] demo_state))"
proof -
  have h1: "normalize_target demo_env (apply_load_path demo_env (world demo_state) (Str ''a/none/''))
     = Str ''a/none''"
    by (simp add: normalize_target_def apply_load_path_def demo_defs)
  have h2: "\<not> is_zipfile demo_env (world demo_state) (Str ''a/none'')"
    by (simp add: demo_defs)
  have h3: "\<not> path_exists demo_env (world demo_state) ''a/none''"
    by (simp add: demo_defs)
  have g1: "normalize_target demo_env (apply_load_path demo_env (world demo_state) (Str ''a/bar/''))
     = Str ''a/bar''"
    by (simp add: normalize_target_def apply_load_path_def demo_defs)
  have g2: "\<not> is_zipfile demo_env (world demo_state) (Str ''a/bar'')"
    by (simp add: demo_defs)
  have g3: "path_exists demo_env (world demo_state) ''a/bar''"
    by (simp add: demo_defs)
  have "fst (load_from_dir demo_env (Str ''a/bar'') False [] demo_state)
      = Inl (Collab_FileNotFound ''config.yml'')"
    by (simp add: method_defs demo_defs)
  then have g4: "load_from_dir demo_env (Str ''a/bar'') False [] demo_state
       = (Inl (Collab_FileNotFound ''config.yml''),
          snd (load_from_dir demo_env (Str ''a/bar'') False [] demo_state))"
    by (simp add: prod_eq_iff)
  have g5: "is_FileNotFoundError (Collab_FileNotFound ''config.yml'')" by simp
  note t = missing_path_fails_before_dispatch [OF h1 h2 h3, of True "[]"]
  note a1 = t [THEN conjunct1]
  note a2 = t [THEN conjunct2, THEN conjunct1]
  note a3 = t [THEN conjunct2, THEN conjunct2, THEN conjunct2, THEN conjunct2,
               rule_format, OF g1 g2 g4 g5]
  from h1 h2 h3 a1 a2 g1 g2 g3 g4 g5 a3 show ?thesis
    by (intro conjI)
qed

section \<open>The singleton cache is read after the path check\<close>




section \<open>The key of the singleton cache\<close>









section \<open>The module config is parsed lazily, and once\<close>







section \<open>Archives: one level of nesting\<close>

lemma try_backend_probed:
  assumes "try_backend env p a b parsed s = (out, parsed', s')"
  shows "\<exists>evs. trace s' = trace s @ evs \<and> set (probed_paths evs) \<subseteq> {p}"
  using assms
  by (auto simp: try_backend_def parse_module_config_def Let_def
      split: if_splits prod.splits sum.splits option.splits pyobj.splits)

lemma try_backends_probed:
  assumes "try_backends env p a bs parsed s = (r, parsed', s')"
  shows "\<exists>evs. trace s' = trace s @ evs \<and> set (probed_paths evs) \<subseteq> {p}"
  using assms
proof (induction bs arbitrary: parsed s)
  case Nil
  then show ?case by auto
next
  case (Cons b bs)
  obtain out parsed1 s1 where step: "try_backend env p a b parsed s = (out, parsed1, s1)"
    by (cases "try_backend env p a b parsed s")
  from try_backend_probed [OF step] obtain evs1 where
    t1: "trace s1 = trace s @ evs1" and p1: "set (probed_paths evs1) \<subseteq> {p}"
    by blast
  show ?case
  proof (cases "out = Skipped")
    case False
    then have "s' = s1"
      using Cons.prems step by (cases out) simp_all
    with t1 p1 show ?thesis by auto
  next
    case True
    with Cons.prems step have rest: "try_backends env p a bs parsed1 s1 = (r, parsed', s')"
      by simp
    from Cons.IH [OF rest] obtain evs2 where
      t2: "trace s' = trace s1 @ evs2" and p2: "set (probed_paths evs2) \<subseteq> {p}"
      by blast
    have "trace s' = trace s @ (evs1 @ evs2)" using t1 t2 by simp
    moreover have "set (probed_paths (evs1 @ evs2)) \<subseteq> {p}" using p1 p2 by simp
    ultimately show ?thesis by blast
  qed
qed

lemma load_from_dir_probed:
  assumes run: "load_from_dir env (Str p) sgl args s = (r, s')"
  shows "\<exists>evs. trace s' = trace s @ evs \<and> set (probed_paths evs) \<subseteq> {p}"
proof (cases "path_exists env (world s) p")
  case False
  from load_from_dir_missing [OF False] run show ?thesis by auto
next
  case True
  show ?thesis
  proof (cases "sgl \<and> (\<exists>m. singleton_module_cache s p = Some m \<and> inst_truthy m)")
    case hit: True
    then obtain m where "singleton_module_cache s p = Some m \<and> inst_truthy m" and sgl by auto
    from load_from_dir_cached [OF True this(1)] run \<open>sgl\<close>
    have "s' = singleton_lock_exit True (singleton_lock_enter True s)" by simp
    then have "trace s' = trace s @ [Lock_acquire, Lock_release]" by simp
    then show ?thesis by (intro exI conjI) (assumption, auto)
  next
    case miss: False
    let ?s1 = "singleton_lock_enter sgl s"
    obtain bs s2 where cfg: "get_configured_backends env ?s1 = (bs, s2)"
      by (cases "get_configured_backends env ?s1")
    obtain r3 parsed s3 where loop: "try_backends env p args bs None s2 = (r3, parsed, s3)"
      by (cases "try_backends env p args bs None s2")
    from get_configured_backends_state [OF cfg] obtain cevs where
      t2: "trace s2 = trace ?s1 @ cevs" and cz: "probed_paths cevs = []"
      by auto
    from try_backends_probed [OF loop] obtain evs where
      t3: "trace s3 = trace s2 @ evs" and
      p3: "set (probed_paths evs) \<subseteq> {p}"
      by blast
    from load_from_dir_dispatch [OF True miss cfg loop] run
    have "\<exists>s4. s' = singleton_lock_exit sgl s4 \<and> trace s4 = trace s3"
      by (auto split: sum.splits option.splits)
    then have "trace s' = trace s
        @ ((if sgl then [Lock_acquire] else []) @ cevs @ evs @ (if sgl then [Lock_release] else []))"
      using t2 t3 by auto
    moreover have "probed_paths
        ((if sgl then [Lock_acquire] else []) @ cevs @ evs @ (if sgl then [Lock_release] else []))
        = probed_paths evs"
      using cz by simp
    ultimately show ?thesis
      using p3 by (intro exI conjI) (assumption, auto)
  qed
qed

text \<open>After an extraction without error, \<^verbatim>\<open>_load_from_zipfile\<close> is the loading of the
  extracted directory, then the removal of the temporary directory.\<close>

lemma load_from_zipfile_extracted:
  assumes mk: "mkdtemp env (world s) = (extract_path, w1)"
    and ex: "zip_extractall env module_path extract_path w1 = (None, w2)"
    and s2: "s2 = record_event (Zip_extractall module_path extract_path None)
                    ((record_event (Mkdtemp extract_path) (s\<lparr>world := w1\<rparr>))\<lparr>world := w2\<rparr>)"
    and inner: "load_extracted env module_path extract_path sgl args s2 = (r, s4)"
  shows "load_from_zipfile env module_path sgl args s =
           (r, record_event (Cleanup extract_path) (s4\<lparr>world := rmtree env extract_path (world s4)\<rparr>))"
  using assms by (simp add: load_from_zipfile_def Let_def)

lemma load_extracted_fallback:
  assumes first: "load_from_dir env (Str extract_path) sgl args s = (Inl e, s1)"
    and fnf: "is_FileNotFoundError e"
  shows "load_extracted env module_path extract_path sgl args s =
           (case nested_dirs env (world s1) extract_path of
              [d] \<Rightarrow>
                (case load_from_dir env (Str d) sgl args s1 of (r2, s2) \<Rightarrow>
                   ((case r2 of
                       Inr model \<Rightarrow> Inr model
                     | Inl e2 \<Rightarrow>
                         Inl (if is_FileNotFoundError e2 then NotInTopTwoLevels module_path else e2)),
                    s2))
            | _ \<Rightarrow> (Inl NestedDirs, s1))"
  using assms
  by (auto simp: load_extracted_def split: list.splits prod.splits sum.splits)

text \<open>C5. Let an archive be extracted without error into the temporary directory, and
  let the loading of that directory raise \<^verbatim>\<open>FileNotFoundError\<close>. \<open>dirs\<close> is the list of
  the entries of the directory that are directories and whose name does not start with
  two underscores. When \<open>dirs\<close> has not exactly one element, \<^verbatim>\<open>_load_from_zipfile\<close>
  raises the error of the nested directories and does nothing more but remove the
  temporary directory. When \<open>dirs\<close> is one directory \<open>d\<close>, it loads \<open>d\<close> once and then
  removes the temporary directory: the result is the instance loaded from \<open>d\<close>, and a
  failure of that loading is the failure of the whole (a \<^verbatim>\<open>FileNotFoundError\<close> becomes the
  error that names the top two levels). The only directories ever given to the parser or
  to a loader are the temporary directory and the elements of \<open>dirs\<close>, which lie right
  below it. The error of the nested directories is neither the error of \<^verbatim>\<open>load\<close> about
  a missing \<^verbatim>\<open>config.yml\<close> nor the one of a missing path.\<close>

theorem archive_nested_directory_fallback:
  assumes mk: "mkdtemp env (world s) = (extract_path, w1)"
    and ex: "zip_extractall env module_path extract_path w1 = (None, w2)"
    and s2: "s2 = record_event (Zip_extractall module_path extract_path None)
                    ((record_event (Mkdtemp extract_path) (s\<lparr>world := w1\<rparr>))\<lparr>world := w2\<rparr>)"
    and first: "load_from_dir env (Str extract_path) sgl args s2 = (Inl e, s3)"
    and fnf: "is_FileNotFoundError e"
    and dirs: "dirs = map (path_join env extract_path)
                        (filter (\<lambda>f. isdir env (world s3) (path_join env extract_path f)
                                      \<and> \<not> startswith f ''__'')
                           (listdir env (world s3) extract_path))"
  shows "(length dirs \<noteq> 1 \<longrightarrow>
            fst (load_from_zipfile env module_path sgl args s) = Inl NestedDirs
          \<and> new_events s3 (snd (load_from_zipfile env module_path sgl args s))
              = [Cleanup extract_path])
     \<and> (\<forall>d. dirs = [d] \<longrightarrow>
            fst (load_from_zipfile env module_path sgl args s)
              = (case fst (load_from_dir env (Str d) sgl args s3) of
                   Inr model \<Rightarrow> Inr model
                 | Inl e2 \<Rightarrow>
                     Inl (if is_FileNotFoundError e2 then NotInTopTwoLevels module_path else e2))
          \<and> new_events s3 (snd (load_from_zipfile env module_path sgl args s))
              = new_events s3 (snd (load_from_dir env (Str d) sgl args s3)) @ [Cleanup extract_path])
     \<and> set (probed_paths (new_events s (snd (load_from_zipfile env module_path sgl args s))))
          \<subseteq> {extract_path} \<union> set dirs
     \<and> (\<forall>t p. NestedDirs \<noteq> NoConfigYml t \<and> NestedDirs \<noteq> PathNotFound p)"
proof -
  have nd: "nested_dirs env (world s3) extract_path = dirs"
    by (simp add: nested_dirs_def dirs)
  from load_from_dir_probed [OF first] obtain evs1 where
    t3: "trace s3 = trace s2 @ evs1" and p1: "set (probed_paths evs1) \<subseteq> {extract_path}"
    by blast
  have t2: "trace s2 = trace s @ [Mkdtemp extract_path, Zip_extractall module_path extract_path None]"
    by (simp add: s2)
  note fb = load_extracted_fallback [OF first fnf, of module_path, unfolded nd]
  show ?thesis
  proof (cases "\<exists>d. dirs = [d]")
    case False
    then have len: "length dirs \<noteq> 1"
      by (cases dirs) auto
    from False have inner: "load_extracted env module_path extract_path sgl args s2 = (Inl NestedDirs, s3)"
      using fb by (auto split: list.splits)
    note z = load_from_zipfile_extracted [OF mk ex s2 inner]
    have tr: "trace (snd (load_from_zipfile env module_path sgl args s))
        = trace s @ ([Mkdtemp extract_path, Zip_extractall module_path extract_path None] @ evs1
            @ [Cleanup extract_path])"
      using t2 t3 by (simp add: z)
    have "set (probed_paths (new_events s (snd (load_from_zipfile env module_path sgl args s))))
        \<subseteq> {extract_path} \<union> set dirs"
      using p1 by (auto simp: new_events_ext [OF tr])
    moreover have "new_events s3 (snd (load_from_zipfile env module_path sgl args s))
              = [Cleanup extract_path]"
      by (simp add: z new_events_def)
    ultimately show ?thesis
      using False by (simp add: z)
  next
    case True
    then obtain d where d: "dirs = [d]" by blast
    obtain r2 s4 where second: "load_from_dir env (Str d) sgl args s3 = (r2, s4)"
      by (cases "load_from_dir env (Str d) sgl args s3")
    from load_from_dir_probed [OF second] obtain evs2 where
      t4: "trace s4 = trace s3 @ evs2" and p2: "set (probed_paths evs2) \<subseteq> {d}"
      by blast
    have inner: "load_extracted env module_path extract_path sgl args s2 =
        ((case r2 of
            Inr model \<Rightarrow> Inr model
          | Inl e2 \<Rightarrow> Inl (if is_FileNotFoundError e2 then NotInTopTwoLevels module_path else e2)),
         s4)"
      using fb d second by simp
    note z = load_from_zipfile_extracted [OF mk ex s2 inner]
    have tr: "trace (snd (load_from_zipfile env module_path sgl args s))
        = trace s @ ([Mkdtemp extract_path, Zip_extractall module_path extract_path None] @ evs1
            @ evs2 @ [Cleanup extract_path])"
      using t2 t3 t4 by (simp add: z)
    have pp: "set (probed_paths (new_events s (snd (load_from_zipfile env module_path sgl args s))))
        \<subseteq> {extract_path} \<union> set dirs"
      using p1 p2 d by (auto simp: new_events_ext [OF tr])
    have ev: "new_events s3 (snd (load_from_zipfile env module_path sgl args s))
        = new_events s3 (snd (load_from_dir env (Str d) sgl args s3)) @ [Cleanup extract_path]"
      using t4 by (simp add: z second new_events_def)
    have res: "fst (load_from_zipfile env module_path sgl args s)
              = (case fst (load_from_dir env (Str d) sgl args s3) of
                   Inr model \<Rightarrow> Inr model
                 | Inl e2 \<Rightarrow>
                     Inl (if is_FileNotFoundError e2 then NotInTopTwoLevels module_path else e2))"
      by (simp add: z second)
    from pp ev res d show ?thesis by simp
  qed
qed

theorem archive_nested_directory_fallback_witness:
  "mkdtemp demo_env (world demo_state) = (''/tmp/t0'', [''/tmp/t0'', ''a'', ''a/foo'', ''a/bar''])
   \<and> zip_extractall demo_env (Str ''m.zip'') ''/tmp/t0'' [''/tmp/t0'', ''a'', ''a/foo'', ''a/bar'']
       = (None, [''/tmp/t0'', ''a'', ''a/foo'', ''a/bar'', ''/tmp/t0'', ''/tmp/t0/__MACOSX'', ''/tmp/t0/foo''])
   \<and> fst (load_from_dir demo_env (Str ''/tmp/t0'') False []
         (record_event (Zip_extractall (Str ''m.zip'') ''/tmp/t0'' None)
            ((record_event (Mkdtemp ''/tmp/t0'')
                (demo_state\<lparr>world := [''/tmp/t0'', ''a'', ''a/foo'', ''a/bar'']\<rparr>))
             \<lparr>world := [''/tmp/t0'', ''a'', ''a/foo'', ''a/bar'', ''/tmp/t0'', ''/tmp/t0/__MACOSX'',
                         ''/tmp/t0/foo'']\<rparr>)))
       = Inl (Collab_FileNotFound ''config.yml'')
   \<and> is_FileNotFoundError (Collab_FileNotFound ''config.yml'')
   \<and> fst (load_from_zipfile demo_env (Str ''m.zip'') False [] demo_state)
       = Inr (foo_instance\<lparr>inst_load_backend := Some local_backend\<rparr>)
   \<and> set (probed_paths (new_events demo_state
         (snd (load_from_zipfile demo_env (Str ''m.zip'') False [] demo_state))))
       \<subseteq> {''/tmp/t0''} \<union> set [''/tmp/t0/foo'']
   \<and> fst (load_from_zipfile two_dirs_env (Str ''m.zip'') False [] demo_state) = Inl NestedDirs"
proof -
  let ?w1 = "[''/tmp/t0'', ''a'', ''a/foo'', ''a/bar'']"
  let ?w2 = "[''/tmp/t0'', ''a'', ''a/foo'', ''a/bar'', ''/tmp/t0'', ''/tmp/t0/__MACOSX'', ''/tmp/t0/foo'']"
  let ?w2' = "[''/tmp/t0'', ''a'', ''a/foo'', ''a/bar'', ''/tmp/t0'', ''/tmp/t0/foo'', ''/tmp/t0/bar'']"
  let ?s2 = "record_event (Zip_extractall (Str ''m.zip'') ''/tmp/t0'' None)
            ((record_event (Mkdtemp ''/tmp/t0'') (demo_state\<lparr>world := ?w1\<rparr>))\<lparr>world := ?w2\<rparr>)"
  let ?s2' = "record_event (Zip_extractall (Str ''m.zip'') ''/tmp/t0'' None)
            ((record_event (Mkdtemp ''/tmp/t0'') (demo_state\<lparr>world := ?w1\<rparr>))\<lparr>world := ?w2'\<rparr>)"
  let ?e = "Collab_FileNotFound ''config.yml''"
  let ?s3 = "snd (load_from_dir demo_env (Str ''/tmp/t0'') False [] ?s2)"
  let ?s3' = "snd (load_from_dir two_dirs_env (Str ''/tmp/t0'') False [] ?s2')"
  have mk: "mkdtemp demo_env (world demo_state) = (''/tmp/t0'', ?w1)"
    by (simp add: demo_defs)
  have ex: "zip_extractall demo_env (Str ''m.zip'') ''/tmp/t0'' ?w1 = (None, ?w2)"
    by (simp add: demo_defs)
  have f: "fst (load_from_dir demo_env (Str ''/tmp/t0'') False [] ?s2) = Inl ?e"
    by (simp add: method_defs demo_defs)
  then have first: "load_from_dir demo_env (Str ''/tmp/t0'') False [] ?s2 = (Inl ?e, ?s3)"
    by (simp add: prod_eq_iff)
  have fnf: "is_FileNotFoundError ?e" by simp
  note t = archive_nested_directory_fallback [OF mk ex refl first fnf refl]
  have dirs: "map (path_join demo_env ''/tmp/t0'')
      (filter (\<lambda>f. isdir demo_env (world ?s3) (path_join demo_env ''/tmp/t0'' f)
                    \<and> \<not> startswith f ''__'')
         (listdir demo_env (world ?s3) ''/tmp/t0'')) = [''/tmp/t0/foo'']"
    by (simp add: method_defs demo_defs)
  have retry: "fst (load_from_dir demo_env (Str ''/tmp/t0/foo'') False [] ?s3)
      = Inr (foo_instance\<lparr>inst_load_backend := Some local_backend\<rparr>)"
    by (simp add: method_defs demo_defs)
  have r: "fst (load_from_zipfile demo_env (Str ''m.zip'') False [] demo_state)
       = Inr (foo_instance\<lparr>inst_load_backend := Some local_backend\<rparr>)"
    using t [THEN conjunct2, THEN conjunct1, rule_format, OF dirs, THEN conjunct1]
    by (simp add: retry)
  have pp: "set (probed_paths (new_events demo_state
         (snd (load_from_zipfile demo_env (Str ''m.zip'') False [] demo_state))))
       \<subseteq> {''/tmp/t0''} \<union> set [''/tmp/t0/foo'']"
    using t [THEN conjunct2, THEN conjunct2, THEN conjunct1] by (simp only: dirs)
  have mk': "mkdtemp two_dirs_env (world demo_state) = (''/tmp/t0'', ?w1)"
    by (simp add: demo_defs)
  have ex': "zip_extractall two_dirs_env (Str ''m.zip'') ''/tmp/t0'' ?w1 = (None, ?w2')"
    by (simp add: demo_defs)
  have f': "fst (load_from_dir two_dirs_env (Str ''/tmp/t0'') False [] ?s2') = Inl ?e"
    by (simp add: method_defs demo_defs)
  then have first': "load_from_dir two_dirs_env (Str ''/tmp/t0'') False [] ?s2' = (Inl ?e, ?s3')"
    by (simp add: prod_eq_iff)
  note t' = archive_nested_directory_fallback [OF mk' ex' refl first' fnf refl]
  have len: "length (map (path_join two_dirs_env ''/tmp/t0'')
      (filter (\<lambda>f. isdir two_dirs_env (world ?s3') (path_join two_dirs_env ''/tmp/t0'' f)
                    \<and> \<not> startswith f ''__'')
         (listdir two_dirs_env (world ?s3') ''/tmp/t0''))) \<noteq> 1"
    by (simp add: method_defs demo_defs)
  have r': "fst (load_from_zipfile two_dirs_env (Str ''m.zip'') False [] demo_state) = Inl NestedDirs"
    by (rule mp [OF t' [THEN conjunct1] len, THEN conjunct1])
  from mk ex f fnf r pp r' show ?thesis
    by (intro conjI)
qed

section \<open>Which classes are given the artifact\<close>











section \<open>The lock\<close>

text \<open>The model is sequential, so it says nothing of calls that run at the same time.
  What it shows of the lock: a load that is no singleton load never takes it; a singleton
  load of an existing path takes it first, releases it last, on success and on failure,
  and does everything else in between.\<close>

lemma lock_events_simps [simp]:
  "lock_events [] = []"
  "lock_events (e # evs) = (if is_lock_event e then e # lock_events evs else lock_events evs)"
  "lock_events (xs @ ys) = lock_events xs @ lock_events ys"
  by (simp_all add: lock_events_def)

lemma try_backend_no_lock:
  assumes "try_backend env p a b parsed s = (out, parsed', s')"
  shows "\<exists>evs. trace s' = trace s @ evs \<and> lock_events evs = []"
  using assms
  by (auto simp: try_backend_def parse_module_config_def Let_def
      split: if_splits prod.splits sum.splits option.splits pyobj.splits)

lemma try_backends_no_lock:
  assumes "try_backends env p a bs parsed s = (r, parsed', s')"
  shows "\<exists>evs. trace s' = trace s @ evs \<and> lock_events evs = []"
  using assms
proof (induction bs arbitrary: parsed s)
  case Nil
  then show ?case by auto
next
  case (Cons b bs)
  obtain out parsed1 s1 where step: "try_backend env p a b parsed s = (out, parsed1, s1)"
    by (cases "try_backend env p a b parsed s")
  from try_backend_no_lock [OF step] obtain evs1 where
    t1: "trace s1 = trace s @ evs1" and l1: "lock_events evs1 = []"
    by blast
  show ?case
  proof (cases "out = Skipped")
    case False
    then have "s' = s1"
      using Cons.prems step by (cases out) simp_all
    with t1 l1 show ?thesis by auto
  next
    case True
    with Cons.prems step have rest: "try_backends env p a bs parsed1 s1 = (r, parsed', s')"
      by simp
    from Cons.IH [OF rest] obtain evs2 where
      t2: "trace s' = trace s1 @ evs2" and l2: "lock_events evs2 = []"
      by blast
    have "trace s' = trace s @ (evs1 @ evs2)" using t1 t2 by simp
    moreover have "lock_events (evs1 @ evs2) = []" using l1 l2 by simp
    ultimately show ?thesis by blast
  qed
qed

lemma load_from_dir_lock:
  assumes ex: "path_exists env (world s) p"
  shows "\<exists>evs. new_events s (snd (load_from_dir env (Str p) sgl args s))
             = (if sgl then [Lock_acquire] else []) @ evs @ (if sgl then [Lock_release] else [])
           \<and> lock_events evs = []"
proof (cases "sgl \<and> (\<exists>m. singleton_module_cache s p = Some m \<and> inst_truthy m)")
  case hit: True
  then obtain m where "singleton_module_cache s p = Some m \<and> inst_truthy m" and sgl by auto
  from load_from_dir_cached [OF ex this(1)] \<open>sgl\<close>
  have "new_events s (snd (load_from_dir env (Str p) sgl args s)) = [Lock_acquire] @ [] @ [Lock_release]"
    by (simp add: new_events_def)
  with \<open>sgl\<close> show ?thesis by (intro exI [of _ "[]"]) simp
next
  case miss: False
  let ?s1 = "singleton_lock_enter sgl s"
  obtain bs s2 where cfg: "get_configured_backends env ?s1 = (bs, s2)"
    by (cases "get_configured_backends env ?s1")
  obtain r3 parsed s3 where loop: "try_backends env p args bs None s2 = (r3, parsed, s3)"
    by (cases "try_backends env p args bs None s2")
  have "\<exists>cevs. trace s2 = trace ?s1 @ cevs \<and> lock_events cevs = []"
    using cfg by (auto simp: get_configured_backends_def Let_def split: if_splits)
  then obtain cevs where t2: "trace s2 = trace ?s1 @ cevs" and cz: "lock_events cevs = []"
    by blast
  from try_backends_no_lock [OF loop] obtain evs where
    t3: "trace s3 = trace s2 @ evs" and l3: "lock_events evs = []"
    by blast
  from load_from_dir_dispatch [OF ex miss cfg loop]
  have "\<exists>s4. snd (load_from_dir env (Str p) sgl args s) = singleton_lock_exit sgl s4
      \<and> trace s4 = trace s3"
    by (auto split: sum.splits option.splits)
  then have "trace (snd (load_from_dir env (Str p) sgl args s)) = trace s
      @ ((if sgl then [Lock_acquire] else []) @ (cevs @ evs) @ (if sgl then [Lock_release] else []))"
    using t2 t3 by auto
  then have "new_events s (snd (load_from_dir env (Str p) sgl args s))
      = (if sgl then [Lock_acquire] else []) @ (cevs @ evs) @ (if sgl then [Lock_release] else [])"
    by (rule new_events_ext)
  moreover have "lock_events (cevs @ evs) = []" using cz l3 by simp
  ultimately show ?thesis by blast
qed

lemma non_singleton_load_takes_no_lock:
  "lock_events (new_events s (snd (load_from_dir env tgt False args s))) = []"
proof (cases tgt)
  case (Str p)
  show ?thesis
  proof (cases "path_exists env (world s) p")
    case True
    from load_from_dir_lock [OF True, of False args] Str show ?thesis by auto
  next
    case False
    from load_from_dir_missing [OF False] Str show ?thesis by simp
  qed
qed (simp_all add: load_from_dir_def)

end
